theory Spec2Isabelle
  imports Complex_Main "HOL-Library.Log_Nat"
begin

section \<open>Values shared by the inference layer and the service\<close>

text \<open>
  A floating-point number as Python and NumPy see it: a finite value, one of the two
  infinities, or NaN. A finite value is carried as the rational it denotes; the two zeros
  are not told apart.
\<close>

datatype pyfloat = Fin rat | PInf | NInf | NaN

text \<open>Rounding to the nearest integer, a tie going to the even neighbour.\<close>

definition round_half_even :: "rat \<Rightarrow> int" where
  "round_half_even x =
     (let n = \<lfloor>x\<rfloor>; d = x - of_int n
      in if d < 1/2 then n else if 1/2 < d then n + 1 else if even n then n else n + 1)"

text \<open>
  IEEE 754 rounding of a magnitude \<open>a\<close> to the binary format with \<open>p\<close> significant bits
  whose smallest positive number is \<open>2^-s\<close>: the magnitude is counted in units of
  \<open>2^-s\<close>, the spacing \<open>2^k\<close> of the format at that magnitude is found from its bit
  length, and the magnitude is rounded to a multiple of the spacing, ties to even.
\<close>

definition round_magnitude :: "nat \<Rightarrow> nat \<Rightarrow> rat \<Rightarrow> rat" where
  "round_magnitude p s a =
     (let x = a * 2 ^ s;
          k = floorlog 2 (nat \<lfloor>x\<rfloor>) - p
      in of_int (round_half_even (x / 2 ^ k)) * 2 ^ k / 2 ^ s)"

text \<open>The rounding of a rational in a format whose finite numbers are below \<open>2^emax\<close>: a
  rounded magnitude that reaches \<open>2^emax\<close> is an infinity.\<close>

definition round_binary :: "nat \<Rightarrow> nat \<Rightarrow> nat \<Rightarrow> rat \<Rightarrow> pyfloat" where
  "round_binary p s emax r =
     (let y = round_magnitude p s \<bar>r\<bar>
      in if 2 ^ emax \<le> y then (if 0 < r then PInf else NInf)
         else Fin (if r < 0 then - y else y))"

text \<open>The single-precision number (NumPy's float32) and the double-precision number
  (Python's float) nearest to a rational.\<close>

definition float32 :: "rat \<Rightarrow> pyfloat" where
  "float32 = round_binary 24 149 128"

definition float64 :: "rat \<Rightarrow> pyfloat" where
  "float64 = round_binary 53 1074 1024"

text \<open>The exceptions that the modelled code can meet. \<open>Raised\<close> is any exception
  coming out of an external object (a model, a scaler, a deserializer).\<close>

datatype exn =
    RuntimeError string
  | FileNotFoundError string
  | TypeError
  | ValueError
  | AttributeError
  | IndexError
  | ZeroDivisionError
  | OverflowError
  | Raised string

type_synonym matrix = "pyfloat list list"

text \<open>A fitted scaler is used only through \<open>scaler.transform(X)\<close>, which may raise.\<close>

type_synonym scaler = "matrix \<Rightarrow> exn + matrix"

section \<open>\<open>inference.py\<close>: \<open>preprocess_input\<close>\<close>

text \<open>\<open>np.isinf\<close> on one element.\<close>

fun isinf :: "pyfloat \<Rightarrow> bool" where
  "isinf PInf = True"
| "isinf NInf = True"
| "isinf (Fin r) = False"
| "isinf NaN = False"

text \<open>\<open>np.isnan\<close> on one element (used in statements only; the code never calls it).\<close>

fun isnan :: "pyfloat \<Rightarrow> bool" where
  "isnan NaN = True"
| "isnan (Fin r) = False"
| "isnan PInf = False"
| "isnan NInf = False"

text \<open>The conversion of one number to float32: a finite value is rounded, and becomes
  an infinity when it is too large; the infinities and NaN stay.\<close>

fun cast32 :: "pyfloat \<Rightarrow> pyfloat" where
  "cast32 (Fin r) = float32 r"
| "cast32 PInf = PInf"
| "cast32 NInf = NInf"
| "cast32 NaN = NaN"

text \<open>Lines 25-28 turn the argument, a matrix of numbers, into a float32 array.\<close>

definition astype_float32 :: "matrix \<Rightarrow> matrix" where
  "astype_float32 X = map (map cast32) X"

text \<open>\<open>X[finite_mask]\<close>: the rows whose mask entry is true, in order.\<close>

definition boolean_index :: "'a list \<Rightarrow> bool list \<Rightarrow> 'a list" where
  "boolean_index X bs = map fst (filter snd (zip X bs))"

text \<open>
  \<open>preprocess_input(X, scaler)\<close>. The first component of the result is what the function
  prints: \<open>Some n\<close> for the warning that \<open>n\<close> samples were removed, \<open>None\<close> when nothing
  is printed. The second component is the returned matrix, or the exception that
  \<open>scaler.transform\<close> raised.
\<close>

definition preprocess_input :: "matrix \<Rightarrow> scaler option \<Rightarrow> nat option \<times> (exn + matrix)" where
  "preprocess_input X0 scaler =
     (let X = astype_float32 X0;
          finite_mask = map (\<lambda>row. \<not> list_ex isinf row) X;
          all_finite = list_all (\<lambda>b. b) finite_mask;
          warning = (if \<not> all_finite
                     then Some (length (filter (\<lambda>b. \<not> b) finite_mask)) else None);
          X' = (if \<not> all_finite then boolean_index X finite_mask else X)
      in (warning,
          case scaler of
            None \<Rightarrow> Inr X'
          | Some s \<Rightarrow> s X'))"

section \<open>\<open>inference.py\<close>: \<open>load_model_from_folder\<close>\<close>

text \<open>
  What the loader reads from its surroundings: \<open>os.path.abspath\<close>, \<open>os.path.exists\<close>,
  \<open>joblib.load\<close> (which may raise), and the module-level name \<open>keras\<close>, which is
  \<open>None\<close> when the TensorFlow import failed and otherwise gives \<open>keras.models.load_model\<close>.
  \<open>np_object_float32\<close> is NumPy's conversion of a Python object that is not a number to
  float32 (a string is parsed, other objects are rejected); it is used by \<open>predict_threat\<close>.
  A deserialized artifact is a value of the type \<open>'obj\<close>, or Python's \<open>None\<close>.

  A Python value as it comes out of a JSON body: an integer of any size, a float, a
  boolean, a string, \<open>None\<close>, or a list or dictionary.
\<close>

datatype pyval = PyInt int | PyFloat pyfloat | PyBool bool | PyStr string | PyNone | PyContainer

record 'obj runtime =
  abspath :: "string \<Rightarrow> string"
  exists :: "string \<Rightarrow> bool"
  joblib_load :: "string \<Rightarrow> exn + 'obj option"
  keras :: "(string \<Rightarrow> exn + 'obj) option"
  np_object_float32 :: "pyval \<Rightarrow> exn + pyfloat"

record 'obj load_context =
  folder :: string
  scaler :: "'obj option"
  label_encoder :: "'obj option"
  framework :: "string option"

text \<open>\<open>os.path.join(folder, name)\<close> for a relative \<open>name\<close> (POSIX).\<close>

definition path_join :: "string \<Rightarrow> string \<Rightarrow> string" where
  "path_join dir name =
     (if dir = [] then name
      else if last dir = CHR ''/'' then dir @ name
      else dir @ ''/'' @ name)"

text \<open>
  The optional companions, lines 69-74 and again lines 96-101: the scaler and the label
  encoder are loaded when their files exist; a failing load raises.
\<close>

definition load_companions :: "'obj runtime \<Rightarrow> 'obj load_context \<Rightarrow> exn + 'obj load_context" where
  "load_companions env ctx =
     (let scaler_path = path_join (folder ctx) ''scaler.joblib'' in
      case (if exists env scaler_path
            then (case joblib_load env scaler_path of
                    Inl e \<Rightarrow> Inl e
                  | Inr s \<Rightarrow> Inr (ctx\<lparr>scaler := s\<rparr>))
            else Inr ctx) of
        Inl e \<Rightarrow> Inl e
      | Inr ctx1 \<Rightarrow>
          (let label_path = path_join (folder ctx) ''label_encoder.joblib'' in
           if exists env label_path
           then (case joblib_load env label_path of
                   Inl e \<Rightarrow> Inl e
                 | Inr l \<Rightarrow> Inr (ctx1\<lparr>label_encoder := l\<rparr>))
           else Inr ctx1))"

text \<open>
  The loop over \<open>h5_candidates\<close>, lines 62-75. \<open>None\<close>: no candidate exists and the
  code goes on to the scikit-learn candidates. \<open>Some r\<close>: the function ends inside the
  loop, raising or returning \<open>r\<close>.
\<close>

fun h5_loop :: "'obj runtime \<Rightarrow> 'obj load_context \<Rightarrow> string list \<Rightarrow> (exn + 'obj \<times> 'obj load_context) option" where
  "h5_loop env ctx [] = None"
| "h5_loop env ctx (h5 # rest) =
     (if exists env h5
      then Some (case keras env of
                   None \<Rightarrow> Inl (RuntimeError ''TensorFlow/Keras not available for .h5 model'')
                 | Some load_model \<Rightarrow>
                     (case load_model h5 of
                        Inl e \<Rightarrow> Inl e
                      | Inr model \<Rightarrow>
                          (case load_companions env (ctx\<lparr>framework := Some ''tensorflow''\<rparr>) of
                             Inl e \<Rightarrow> Inl e
                           | Inr ctx' \<Rightarrow> Inr (model, ctx'))))
      else h5_loop env ctx rest)"

text \<open>
  The loop over \<open>skl_candidates\<close>, lines 83-91: the first existing file is loaded and the
  loop is left. \<open>Inr None\<close>: \<open>model_obj\<close> is still \<open>None\<close> after the loop, because no
  candidate exists or because the file that was loaded holds \<open>None\<close>.
\<close>

fun skl_loop :: "'obj runtime \<Rightarrow> string list \<Rightarrow> exn + 'obj option" where
  "skl_loop env [] = Inr None"
| "skl_loop env (p # rest) =
     (if exists env p
      then (case joblib_load env p of Inl e \<Rightarrow> Inl e | Inr model_obj \<Rightarrow> Inr model_obj)
      else skl_loop env rest)"

definition load_model_from_folder :: "'obj runtime \<Rightarrow> string \<Rightarrow> exn + 'obj \<times> 'obj load_context" where
  "load_model_from_folder env folder_path =
     (let dir = abspath env (if folder_path = [] then ''.'' else folder_path);
          ctx = \<lparr>folder = dir, scaler = None, label_encoder = None, framework = None\<rparr>;
          h5_candidates = [path_join dir ''model.h5'', path_join dir ''keras_model.h5'']
      in case h5_loop env ctx h5_candidates of
           Some r \<Rightarrow> r
         | None \<Rightarrow>
             (let skl_candidates = [path_join dir ''model.pkl'',
                                    path_join dir ''random_forest_model.joblib'',
                                    path_join dir ''model.joblib'']
              in case skl_loop env skl_candidates of
                   Inl e \<Rightarrow> Inl e
                 | Inr None \<Rightarrow> Inl (FileNotFoundError ''No supported model file found in folder'')
                 | Inr (Some model_obj) \<Rightarrow>
                     (case load_companions env (ctx\<lparr>framework := Some ''scikit-learn''\<rparr>) of
                        Inl e \<Rightarrow> Inl e
                      | Inr ctx' \<Rightarrow> Inr (model_obj, ctx'))))"

section \<open>\<open>inference.py\<close>: \<open>predict_threat\<close>\<close>

text \<open>
  What a call of \<open>model.predict_proba\<close> or \<open>model.predict\<close> can give back: a
  one-dimensional array, a two-dimensional array (\<open>NdArray2 k rows\<close> has shape
  \<open>(length rows, k)\<close>, every row of length \<open>k\<close>), a Python list of rows of numbers, a
  pandas Series of numbers, a Python number, or some other object (\<open>None\<close>, a string)
  that is none of these. Arrays of more than two dimensions are outside this model.
\<close>

datatype model_output =
    NdArray1 "pyfloat list"
  | NdArray2 nat "pyfloat list list"
  | PyList "pyfloat list list"
  | PySeries "pyfloat list"
  | PyScalar pyfloat
  | PyOther

text \<open>
  A model is used through two attributes only. \<open>None\<close>: the object has no such
  attribute (\<open>hasattr\<close> is false, and calling it raises AttributeError). A model is
  immutable once loaded, so a call is a function of its argument; it may raise.
\<close>

record model =
  predict_proba :: "(matrix \<Rightarrow> exn + model_output) option"
  predict :: "(matrix \<Rightarrow> exn + model_output) option"

record verdict =
  prediction :: string
  confidence :: pyfloat
  is_malicious :: bool
  attack_type :: string

record decision = verdict +
  inference_time :: nat

text \<open>The order of floats that are not NaN.\<close>

fun fle :: "pyfloat \<Rightarrow> pyfloat \<Rightarrow> bool" where
  "fle NaN b = False"
| "fle a NaN = False"
| "fle NInf b = True"
| "fle a PInf = True"
| "fle (Fin a) (Fin b) = (a \<le> b)"
| "fle PInf b = False"
| "fle a NInf = False"

definition fmax :: "pyfloat \<Rightarrow> pyfloat \<Rightarrow> pyfloat" where
  "fmax a b = (if isnan a \<or> isnan b then NaN else if fle a b then b else a)"

text \<open>\<open>np.max\<close> over all elements: raises on an empty array, NaN when a NaN is present.\<close>

definition np_max :: "pyfloat list \<Rightarrow> exn + pyfloat" where
  "np_max xs = (case xs of [] \<Rightarrow> Inl ValueError | x # rest \<Rightarrow> Inr (foldl fmax x rest))"

fun fadd :: "pyfloat \<Rightarrow> pyfloat \<Rightarrow> pyfloat" where
  "fadd NaN b = NaN"
| "fadd a NaN = NaN"
| "fadd (Fin a) (Fin b) = Fin (a + b)"
| "fadd PInf NInf = NaN"
| "fadd NInf PInf = NaN"
| "fadd PInf b = PInf"
| "fadd a PInf = PInf"
| "fadd NInf b = NInf"
| "fadd a NInf = NInf"

text \<open>\<open>a.mean()\<close> over all elements: NaN on an empty array (NumPy warns, it does not raise).\<close>

definition np_mean :: "pyfloat list \<Rightarrow> pyfloat" where
  "np_mean xs =
     (if xs = [] then NaN
      else (case foldl fadd (Fin 0) xs of
              Fin t \<Rightarrow> Fin (t / of_nat (length xs))
            | other \<Rightarrow> other))"

text \<open>\<open>np.argmax\<close> of one row: the first NaN if there is one, else the first maximum;
  raises on an empty row.\<close>

fun argmax_from :: "nat \<Rightarrow> pyfloat \<Rightarrow> nat \<Rightarrow> pyfloat list \<Rightarrow> nat" where
  "argmax_from bi b i [] = bi"
| "argmax_from bi b i (x # xs) =
     (if isnan b then bi
      else if isnan x \<or> \<not> fle x b then argmax_from i x (Suc i) xs
      else argmax_from bi b (Suc i) xs)"

definition np_argmax :: "pyfloat list \<Rightarrow> exn + nat" where
  "np_argmax xs = (case xs of [] \<Rightarrow> Inl ValueError | x # rest \<Rightarrow> Inr (argmax_from 0 x 1 rest))"

text \<open>\<open>np.argmax(pred, axis=1)\<close> on a two-dimensional array.\<close>

fun argmax_rows :: "pyfloat list list \<Rightarrow> exn + nat list" where
  "argmax_rows [] = Inr []"
| "argmax_rows (row # rows) =
     (case np_argmax row of
        Inl e \<Rightarrow> Inl e
      | Inr i \<Rightarrow> (case argmax_rows rows of Inl e \<Rightarrow> Inl e | Inr is \<Rightarrow> Inr (i # is)))"

definition argmax_axis1 :: "nat \<Rightarrow> pyfloat list list \<Rightarrow> exn + nat list" where
  "argmax_axis1 k rows = (if k = 0 then Inl ValueError else argmax_rows rows)"

text \<open>\<open>int(x)\<close> for a float: truncation towards zero; NaN and the infinities raise.\<close>

fun py_int :: "pyfloat \<Rightarrow> exn + int" where
  "py_int (Fin r) = Inr (if 0 \<le> r then \<lfloor>r\<rfloor> else \<lceil>r\<rceil>)"
| "py_int NaN = Inl ValueError"
| "py_int PInf = Inl OverflowError"
| "py_int NInf = Inl OverflowError"

text \<open>\<open>np.array(proba)\<close> for a list of rows (line 181): ragged rows are rejected.\<close>

definition np_array :: "pyfloat list list \<Rightarrow> exn + model_output" where
  "np_array rows =
     (if rows = [] then Inr (NdArray1 [])
      else if list_all (\<lambda>r. length r = length (hd rows)) rows
      then Inr (NdArray2 (length (hd rows)) rows)
      else Inl ValueError)"

text \<open>Lines 182-185. A Series has \<open>ndim\<close> 1, and its \<open>mean\<close> leaves the NaN entries
  out; a list, a number or \<open>None\<close> has no \<open>ndim\<close>.\<close>

fun proba_confidence :: "model_output \<Rightarrow> exn + pyfloat" where
  "proba_confidence (NdArray2 k rows) =
     (if 1 < k then np_max (concat rows) else Inr (np_mean (concat rows)))"
| "proba_confidence (NdArray1 xs) = Inr (np_mean xs)"
| "proba_confidence (PySeries xs) = Inr (np_mean (filter (\<lambda>x. \<not> isnan x) xs))"
| "proba_confidence (PyList rows) = Inl AttributeError"
| "proba_confidence (PyScalar x) = Inl AttributeError"
| "proba_confidence PyOther = Inl AttributeError"

text \<open>The body of the \<open>try\<close> of lines 188-190.\<close>

definition raw_confidence :: "model \<Rightarrow> matrix \<Rightarrow> exn + pyfloat" where
  "raw_confidence model X =
     (case predict model of
        None \<Rightarrow> Inl AttributeError
      | Some call \<Rightarrow>
          (case call X of
             Inl e \<Rightarrow> Inl e
           | Inr raw \<Rightarrow>
               (case raw of
                  NdArray1 xs \<Rightarrow> np_max xs
                | NdArray2 k rows \<Rightarrow> np_max (concat rows)
                | _ \<Rightarrow> Inr (Fin (1/2)))))"

text \<open>Lines 178-192: the confidence. Only the \<open>else\<close> branch is inside a \<open>try\<close>.\<close>

definition confidence_step :: "model \<Rightarrow> matrix \<Rightarrow> exn + pyfloat" where
  "confidence_step model X =
     (case predict_proba model of
        Some call \<Rightarrow>
          (case call X of
             Inl e \<Rightarrow> Inl e
           | Inr out \<Rightarrow>
               (case (case out of PyList rows \<Rightarrow> np_array rows | _ \<Rightarrow> Inr out) of
                  Inl e \<Rightarrow> Inl e
                | Inr proba \<Rightarrow> proba_confidence proba))
      | None \<Rightarrow>
          Inr (case raw_confidence model X of Inl e \<Rightarrow> Fin (1/2) | Inr conf \<Rightarrow> conf))"

text \<open>The value of \<open>pred\<close> after lines 195-203: a Python number, a pandas Series, or an
  object that is neither a number nor array-like.\<close>

datatype py_pred = PredNumber pyfloat | PredSeries "pyfloat list" | PredObject

text \<open>Line 201, for the elements of a one-dimensional array.\<close>

definition array_to_scalar :: "pyfloat list \<Rightarrow> exn + py_pred" where
  "array_to_scalar xs =
     (if length xs = 1 then Inr (PredNumber (hd xs))
      else (case xs of
              [] \<Rightarrow> Inl IndexError
            | x # rest \<Rightarrow>
                (case py_int x of Inl e \<Rightarrow> Inl e | Inr n \<Rightarrow> Inr (PredNumber (Fin (of_int n))))))"

text \<open>The body of the \<open>try\<close> of lines 197-201.\<close>

definition pred_body :: "model \<Rightarrow> matrix \<Rightarrow> exn + py_pred" where
  "pred_body model X =
     (case predict model of
        None \<Rightarrow> Inl AttributeError
      | Some call \<Rightarrow>
          (case call X of
             Inl e \<Rightarrow> Inl e
           | Inr pred \<Rightarrow>
               (case pred of
                  NdArray2 k rows \<Rightarrow>
                    (case argmax_axis1 k rows of
                       Inl e \<Rightarrow> Inl e
                     | Inr is \<Rightarrow> array_to_scalar (map (\<lambda>i. Fin (of_nat i)) is))
                | NdArray1 xs \<Rightarrow> array_to_scalar xs
                | PyScalar x \<Rightarrow> Inr (PredNumber x)
                | PySeries xs \<Rightarrow> Inr (PredSeries xs)
                | _ \<Rightarrow> Inr PredObject)))"

text \<open>Lines 195-203: any exception gives the class 0.\<close>

definition prediction_step :: "model \<Rightarrow> matrix \<Rightarrow> py_pred" where
  "prediction_step model X =
     (case pred_body model X of Inl e \<Rightarrow> PredNumber (Fin 0) | Inr pred \<Rightarrow> pred)"

text \<open>\<open>bool(pred == 1)\<close>, line 205, outside every \<open>try\<close>: the comparison of a Series is
  a Series of booleans, which has a truth value only when it has exactly one entry.\<close>

fun py_eq_one :: "py_pred \<Rightarrow> exn + bool" where
  "py_eq_one (PredNumber x) = Inr (x = Fin 1)"
| "py_eq_one (PredSeries xs) = (case xs of [x] \<Rightarrow> Inr (x = Fin 1) | _ \<Rightarrow> Inl ValueError)"
| "py_eq_one PredObject = Inr False"

text \<open>\<open>d.get(key, default)\<close>.\<close>

definition dict_get :: "('k \<rightharpoonup> 'v) \<Rightarrow> 'k \<Rightarrow> 'v \<Rightarrow> 'v" where
  "dict_get d key dflt = (case d key of None \<Rightarrow> dflt | Some v \<Rightarrow> v)"

text \<open>\<open>float(i)\<close> for a Python integer: the nearest float, or OverflowError when the
  integer is too large for a float.\<close>

definition int_to_float :: "int \<Rightarrow> exn + pyfloat" where
  "int_to_float i =
     (case float64 (of_int i) of
        Fin d \<Rightarrow> Inr (Fin d)
      | _ \<Rightarrow> Inl OverflowError)"

text \<open>One element of \<open>np.array([[...]], dtype='float32')\<close>: a Python integer is turned
  into a float first, and the float is then rounded to float32.\<close>

definition to_float32 :: "'obj runtime \<Rightarrow> pyval \<Rightarrow> exn + pyfloat" where
  "to_float32 env v =
     (case v of
        PyInt i \<Rightarrow> (case int_to_float i of Inl e \<Rightarrow> Inl e | Inr d \<Rightarrow> Inr (cast32 d))
      | PyFloat x \<Rightarrow> Inr (cast32 x)
      | PyBool b \<Rightarrow> Inr (Fin (if b then 1 else 0))
      | _ \<Rightarrow> np_object_float32 env v)"

fun np_array_row :: "'obj runtime \<Rightarrow> pyval list \<Rightarrow> exn + pyfloat list" where
  "np_array_row env [] = Inr []"
| "np_array_row env (v # vs) =
     (case to_float32 env v of
        Inl e \<Rightarrow> Inl e
      | Inr x \<Rightarrow> (case np_array_row env vs of Inl e \<Rightarrow> Inl e | Inr xs \<Rightarrow> Inr (x # xs)))"

definition feature_names :: "string list" where
  "feature_names =
     [''packet_count'', ''byte_count'', ''duration'', ''packets_per_second'',
      ''bytes_per_second'', ''avg_packet_size'', ''protocol_num'', ''src_port'', ''dst_port'']"

text \<open>Line 174: the scaler of the working directory, when the file exists.\<close>

definition default_scaler :: "scaler runtime \<Rightarrow> exn + scaler option" where
  "default_scaler env =
     (if exists env ''scaler.joblib'' then joblib_load env ''scaler.joblib'' else Inr None)"

text \<open>
  \<open>predict_threat(features, model)\<close>. The result is the returned Decision Record or the
  exception that leaves the function; the warning that \<open>preprocess_input\<close> may print is
  not part of it.
\<close>

definition predict_threat :: "scaler runtime \<Rightarrow> (string \<rightharpoonup> pyval) \<Rightarrow> model \<Rightarrow> exn + decision" where
  "predict_threat env features model =
     (case np_array_row env (map (\<lambda>key. dict_get features key (PyInt 0)) feature_names) of
        Inl e \<Rightarrow> Inl e
      | Inr row \<Rightarrow>
     (case default_scaler env of
        Inl e \<Rightarrow> Inl e
      | Inr sc \<Rightarrow>
     (case snd (preprocess_input [row] sc) of
        Inl e \<Rightarrow> Inl e
      | Inr X \<Rightarrow>
     (case confidence_step model X of
        Inl e \<Rightarrow> Inl e
      | Inr conf \<Rightarrow>
     (case py_eq_one (prediction_step model X) of
        Inl e \<Rightarrow> Inl e
      | Inr malicious \<Rightarrow>
          Inr \<lparr>prediction = (if malicious then ''malicious'' else ''benign''),
                confidence = conf,
                is_malicious = malicious,
                attack_type = (if malicious then ''anomaly'' else ''benign''),
                inference_time = 0\<rparr>)))))"

section \<open>\<open>ml_service.py\<close>: \<open>extract_features\<close>\<close>

text \<open>A flow record is the JSON object of the request: a dictionary from field names to
  values.\<close>

type_synonym flow = "string \<rightharpoonup> pyval"

text \<open>\<open>v > 0\<close>: numbers and booleans compare with 0, any other value raises TypeError.\<close>

fun gt_zero :: "pyval \<Rightarrow> exn + bool" where
  "gt_zero (PyInt i) = Inr (0 < i)"
| "gt_zero (PyFloat (Fin r)) = Inr (0 < r)"
| "gt_zero (PyFloat PInf) = Inr True"
| "gt_zero (PyFloat NInf) = Inr False"
| "gt_zero (PyFloat NaN) = Inr False"
| "gt_zero (PyBool b) = Inr b"
| "gt_zero (PyStr s) = Inl TypeError"
| "gt_zero PyNone = Inl TypeError"
| "gt_zero PyContainer = Inl TypeError"

text \<open>The number that a value is, when it is one; a boolean counts as 0 or 1.\<close>

fun as_number :: "pyval \<Rightarrow> pyfloat option" where
  "as_number (PyInt i) = Some (Fin (of_int i))"
| "as_number (PyFloat x) = Some x"
| "as_number (PyBool b) = Some (Fin (if b then 1 else 0))"
| "as_number (PyStr s) = None"
| "as_number PyNone = None"
| "as_number PyContainer = None"

text \<open>The integer that a value is, when it is an \<open>int\<close> or a \<open>bool\<close>.\<close>

fun as_int :: "pyval \<Rightarrow> int option" where
  "as_int (PyInt i) = Some i"
| "as_int (PyBool b) = Some (if b then 1 else 0)"
| "as_int (PyFloat x) = None"
| "as_int (PyStr s) = None"
| "as_int PyNone = None"
| "as_int PyContainer = None"

text \<open>The operand of a float division as a float: an integer is converted, which raises
  OverflowError when it is too large.\<close>

fun as_float :: "pyval \<Rightarrow> exn + pyfloat" where
  "as_float (PyFloat x) = Inr x"
| "as_float (PyInt i) = int_to_float i"
| "as_float (PyBool b) = Inr (Fin (if b then 1 else 0))"
| "as_float (PyStr s) = Inl TypeError"
| "as_float PyNone = Inl TypeError"
| "as_float PyContainer = Inl TypeError"

text \<open>\<open>a / b\<close> on two integers: the quotient is rounded once, to the nearest float; a zero
  divisor raises ZeroDivisionError, a quotient too large for a float OverflowError.\<close>

definition int_truediv :: "int \<Rightarrow> int \<Rightarrow> exn + pyfloat" where
  "int_truediv a b =
     (if b = 0 then Inl ZeroDivisionError
      else (case float64 (of_int a / of_int b) of
              Fin q \<Rightarrow> Inr (Fin q)
            | _ \<Rightarrow> Inl OverflowError))"

text \<open>\<open>a / b\<close> on two floats: a zero divisor raises ZeroDivisionError; a quotient too
  large for a float is an infinity.\<close>

fun float_div :: "pyfloat \<Rightarrow> pyfloat \<Rightarrow> exn + pyfloat" where
  "float_div a (Fin b) =
     (if b = 0 then Inl ZeroDivisionError
      else Inr (case a of
                  Fin x \<Rightarrow> float64 (x / b)
                | PInf \<Rightarrow> (if 0 < b then PInf else NInf)
                | NInf \<Rightarrow> (if 0 < b then NInf else PInf)
                | NaN \<Rightarrow> NaN))"
| "float_div a NaN = Inr NaN"
| "float_div a PInf = Inr (case a of Fin x \<Rightarrow> Fin 0 | _ \<Rightarrow> NaN)"
| "float_div a NInf = Inr (case a of Fin x \<Rightarrow> Fin 0 | _ \<Rightarrow> NaN)"

text \<open>\<open>a / b\<close> on Python values: TypeError unless both are numbers; the division of the
  integers when both are integers, and otherwise the division of the floats, to which an
  integer operand is converted first.\<close>

definition py_truediv :: "pyval \<Rightarrow> pyval \<Rightarrow> exn + pyval" where
  "py_truediv a b =
     (if as_number a = None \<or> as_number b = None then Inl TypeError
      else (case (as_int a, as_int b) of
              (Some i, Some j) \<Rightarrow>
                (case int_truediv i j of Inl e \<Rightarrow> Inl e | Inr q \<Rightarrow> Inr (PyFloat q))
            | _ \<Rightarrow>
                (case as_float a of
                   Inl e \<Rightarrow> Inl e
                 | Inr x \<Rightarrow>
                     (case as_float b of
                        Inl e \<Rightarrow> Inl e
                      | Inr y \<Rightarrow>
                          (case float_div x y of
                             Inl e \<Rightarrow> Inl e
                           | Inr q \<Rightarrow> Inr (PyFloat q))))))"

definition protocol_map :: "string \<rightharpoonup> int" where
  "protocol_map = [''TCP'' \<mapsto> 6, ''UDP'' \<mapsto> 17, ''ICMP'' \<mapsto> 1]"

text \<open>\<open>protocol_map.get(protocol, 0)\<close>: the keys are strings, so any other hashable value
  gets the default; a list or a dictionary cannot be hashed and raises TypeError.\<close>

fun protocol_lookup :: "pyval \<Rightarrow> exn + pyval" where
  "protocol_lookup (PyStr s) = Inr (PyInt (dict_get protocol_map s 0))"
| "protocol_lookup PyContainer = Inl TypeError"
| "protocol_lookup (PyInt i) = Inr (PyInt 0)"
| "protocol_lookup (PyFloat x) = Inr (PyInt 0)"
| "protocol_lookup (PyBool b) = Inr (PyInt 0)"
| "protocol_lookup PyNone = Inr (PyInt 0)"

text \<open>\<open>extract_features(flow_data)\<close>: the handler of line 193 prints and re-raises, so an
  exception of the body is the exception of the function.\<close>

definition extract_features :: "flow \<Rightarrow> exn + (string \<rightharpoonup> pyval)" where
  "extract_features flow_data =
     (let packet_count = dict_get flow_data ''packet_count'' (PyInt 0);
          byte_count = dict_get flow_data ''byte_count'' (PyInt 0);
          duration = dict_get flow_data ''duration_seconds'' (PyInt 0);
          protocol = dict_get flow_data ''protocol'' (PyStr ''TCP'');
          src_port = dict_get flow_data ''source_port'' (PyInt 0);
          dst_port = dict_get flow_data ''destination_port'' (PyInt 0);
          features = [''packet_count'' \<mapsto> packet_count,
                      ''byte_count'' \<mapsto> byte_count,
                      ''duration'' \<mapsto> duration,
                      ''protocol'' \<mapsto> protocol,
                      ''src_port'' \<mapsto> src_port,
                      ''dst_port'' \<mapsto> dst_port]
      in
      case gt_zero duration of
        Inl e \<Rightarrow> Inl e
      | Inr lasting \<Rightarrow>
      (case (if lasting
             then (case py_truediv packet_count duration of
                     Inl e \<Rightarrow> Inl e
                   | Inr pps \<Rightarrow>
                       (case py_truediv byte_count duration of
                          Inl e \<Rightarrow> Inl e
                        | Inr bps \<Rightarrow> Inr (pps, bps)))
             else Inr (PyInt 0, PyInt 0)) of
         Inl e \<Rightarrow> Inl e
       | Inr (pps, bps) \<Rightarrow>
      (case gt_zero packet_count of
         Inl e \<Rightarrow> Inl e
       | Inr has_packets \<Rightarrow>
      (case (if has_packets then py_truediv byte_count packet_count
             else Inr (PyInt 0)) of
         Inl e \<Rightarrow> Inl e
       | Inr aps \<Rightarrow>
      (case protocol_lookup protocol of
         Inl e \<Rightarrow> Inl e
       | Inr pnum \<Rightarrow>
           Inr (features(''packets_per_second'' \<mapsto> pps,
                         ''bytes_per_second'' \<mapsto> bps,
                         ''avg_packet_size'' \<mapsto> aps,
                         ''protocol_num'' \<mapsto> pnum)))))))"

section \<open>\<open>ml_service.py\<close>: \<open>predict_batch\<close>\<close>

record flow_prediction = verdict +
  flow_id :: pyval

record batch_result =
  predictions :: "flow_prediction list"
  total_flows :: nat
  malicious_count :: nat

text \<open>The three responses of the route: the result with status 200, the rejection with
  status 400, and status 500 with the message built from the exception.\<close>

datatype response = Ok200 batch_result | BadRequest400 string | ServerError500 exn

text \<open>The body of the loop, lines 87-96, for one flow.\<close>

definition batch_entry :: "scaler runtime \<Rightarrow> model \<Rightarrow> flow \<Rightarrow> exn + flow_prediction" where
  "batch_entry env model flow =
     (case extract_features flow of
        Inl e \<Rightarrow> Inl e
      | Inr flow_features \<Rightarrow>
          (case predict_threat env flow_features model of
             Inl e \<Rightarrow> Inl e
           | Inr result \<Rightarrow>
               Inr \<lparr>prediction = prediction result,
                    confidence = confidence result,
                    is_malicious = is_malicious result,
                    attack_type = attack_type result,
                    flow_id = dict_get flow ''flow_id'' (PyStr ''unknown'')\<rparr>))"

text \<open>The loop of lines 84-96: \<open>acc\<close> is the list \<open>predictions\<close> built so far.\<close>

fun batch_loop :: "scaler runtime \<Rightarrow> model \<Rightarrow> flow list \<Rightarrow> flow_prediction list \<Rightarrow> exn + flow_prediction list" where
  "batch_loop env model [] acc = Inr acc"
| "batch_loop env model (flow # flows) acc =
     (case batch_entry env model flow of
        Inl e \<Rightarrow> Inl e
      | Inr entry \<Rightarrow> batch_loop env model flows (acc @ [entry]))"

text \<open>
  \<open>predict_batch()\<close>, given the process-wide model and the request body: \<open>None\<close> is a
  body that is empty or has no \<open>flows\<close> key, \<open>Some flows\<close> a body whose \<open>flows\<close> is the
  given sequence of flow records. The timestamp of the response is left out.
\<close>

definition predict_batch :: "scaler runtime \<Rightarrow> model \<Rightarrow> flow list option \<Rightarrow> response" where
  "predict_batch env model data =
     (case data of
        None \<Rightarrow> BadRequest400 ''No flows data provided''
      | Some flows \<Rightarrow>
          (case batch_loop env model flows [] of
             Inl e \<Rightarrow> ServerError500 e
           | Inr preds \<Rightarrow>
               Ok200 \<lparr>predictions = preds,
                      total_flows = length preds,
                      malicious_count = sum_list (map (\<lambda>p. 1) (filter is_malicious preds))\<rparr>))"

section \<open>Predicates used in the statements\<close>

text \<open>A float that is a number between 0 and 1; NaN and the infinities are not.\<close>

fun in_unit_interval :: "pyfloat \<Rightarrow> bool" where
  "in_unit_interval (Fin r) = (0 \<le> r \<and> r \<le> 1)"
| "in_unit_interval PInf = False"
| "in_unit_interval NInf = False"
| "in_unit_interval NaN = False"

text \<open>The numbers held by an array or a list that a model call returned.\<close>

fun entries :: "model_output \<Rightarrow> pyfloat list" where
  "entries (NdArray1 xs) = xs"
| "entries (NdArray2 k rows) = concat rows"
| "entries (PyList rows) = concat rows"
| "entries (PySeries xs) = xs"
| "entries (PyScalar x) = []"
| "entries PyOther = []"

section \<open>Sample surroundings, models and flows\<close>

text \<open>A working directory without a scaler file; NumPy rejects every object that is
  not a number.\<close>

definition plain_env :: "scaler runtime" where
  "plain_env =
     \<lparr>abspath = (\<lambda>p. p), exists = (\<lambda>p. False),
      joblib_load = (\<lambda>p. Inl (Raised ''cannot load'')), keras = None,
      np_object_float32 = (\<lambda>v. Inl ValueError)\<rparr>"

text \<open>A directory \<open>/srv/models\<close> holding \<open>keras_model.h5\<close> and \<open>model.pkl\<close>, in a
  process where the TensorFlow import failed.\<close>

definition no_keras_env :: "nat runtime" where
  "no_keras_env =
     \<lparr>abspath = (\<lambda>p. p),
      exists = (\<lambda>p. p = ''/srv/models/keras_model.h5'' \<or> p = ''/srv/models/model.pkl''),
      joblib_load = (\<lambda>p. Inr (Some 0)), keras = None,
      np_object_float32 = (\<lambda>v. Inl ValueError)\<rparr>"

text \<open>A classifier with \<open>predict_proba\<close>: it gives the class 1 with probability 4/5.\<close>

definition forest_model :: model where
  "forest_model =
     \<lparr>predict_proba = Some (\<lambda>X. Inr (NdArray2 2 [[Fin (1/5), Fin (4/5)]])),
      predict = Some (\<lambda>X. Inr (NdArray1 [Fin 1]))\<rparr>"

text \<open>A classifier without \<open>predict_proba\<close> whose \<open>predict\<close> gives the class label 2.\<close>

definition label_model :: model where
  "label_model = \<lparr>predict_proba = None, predict = Some (\<lambda>X. Inr (NdArray1 [Fin 2]))\<rparr>"

text \<open>A network without \<open>predict_proba\<close> whose \<open>predict\<close> gives one sigmoid score.\<close>

definition sigmoid_model :: model where
  "sigmoid_model = \<lparr>predict_proba = None, predict = Some (\<lambda>X. Inr (NdArray2 1 [[Fin (9/10)]]))\<rparr>"

text \<open>A classifier that looks at its input: a row is of class 1, with probability 9/10,
  when its first feature (the packet count) is at least 50, and of class 0 otherwise.\<close>

definition busy_row :: "pyfloat list \<Rightarrow> bool" where
  "busy_row row = (case row of [] \<Rightarrow> False | x # rest \<Rightarrow> fle (Fin 50) x)"

definition rate_model :: model where
  "rate_model =
     \<lparr>predict_proba = Some (\<lambda>X. Inr (NdArray2 2
        (map (\<lambda>row. if busy_row row then [Fin (1/10), Fin (9/10)] else [Fin (4/5), Fin (1/5)]) X))),
      predict = Some (\<lambda>X. Inr (NdArray1 (map (\<lambda>row. if busy_row row then Fin 1 else Fin 0) X)))\<rparr>"

text \<open>A classifier whose \<open>predict_proba\<close> raises, and one without \<open>predict_proba\<close> whose
  \<open>predict\<close> raises.\<close>

definition failing_proba_model :: model where
  "failing_proba_model =
     \<lparr>predict_proba = Some (\<lambda>X. Inl (Raised ''predict_proba failed'')),
      predict = Some (\<lambda>X. Inr (NdArray1 [Fin 0]))\<rparr>"

definition failing_predict_model :: model where
  "failing_predict_model =
     \<lparr>predict_proba = None, predict = Some (\<lambda>X. Inl (Raised ''predict failed''))\<rparr>"

text \<open>A TCP flow of 100 packets and 50000 bytes in 10 seconds, and a flow that lasts no
  time.\<close>

definition tcp_flow :: flow where
  "tcp_flow =
     [''packet_count'' \<mapsto> PyInt 100, ''byte_count'' \<mapsto> PyInt 50000,
      ''duration_seconds'' \<mapsto> PyInt 10, ''protocol'' \<mapsto> PyStr ''TCP'']"

definition instant_flow :: flow where
  "instant_flow =
     [''flow_id'' \<mapsto> PyStr ''f2'', ''packet_count'' \<mapsto> PyInt 4,
      ''byte_count'' \<mapsto> PyInt 240, ''duration_seconds'' \<mapsto> PyInt 0,
      ''protocol'' \<mapsto> PyStr ''GRE'']"

section \<open>Properties of the rounding to binary floating point\<close>

lemma rhe_of_int: "round_half_even (of_int n) = n"
  by (simp add: round_half_even_def)

lemma rhe_le: "x \<le> of_int N \<Longrightarrow> round_half_even x \<le> N"
proof -
  assume a: "x \<le> of_int N"
  then have f: "\<lfloor>x\<rfloor> \<le> N" by (simp add: floor_le_iff) 
  show ?thesis
  proof (cases "x = of_int \<lfloor>x\<rfloor>")
    case True
    then have "round_half_even x = \<lfloor>x\<rfloor>"
      by (metis rhe_of_int)
    with f show ?thesis by simp
  next
    case False
    moreover have "of_int \<lfloor>x\<rfloor> \<le> x" by (rule of_int_floor_le)
    ultimately have "of_int \<lfloor>x\<rfloor> < x" by linarith
    with a have "of_int \<lfloor>x\<rfloor> < (of_int N :: rat)" by linarith
    then have "\<lfloor>x\<rfloor> < N" by simp
    then have "\<lfloor>x\<rfloor> + 1 \<le> N" by simp
    with f show ?thesis by (auto simp: round_half_even_def Let_def)
  qed
qed

lemma rhe_ge: "x - 1/2 \<le> of_int (round_half_even x)"
proof -
  have "x < of_int \<lfloor>x\<rfloor> + 1" by linarith
  then show ?thesis
    by (auto simp: round_half_even_def Let_def)
qed

lemma round_magnitude_nat:
  assumes "m < 2 ^ p"
  shows "round_magnitude p s (of_nat m) = of_nat m"
proof (cases "m = 0")
  case True
  then show ?thesis
    by (simp add: round_magnitude_def round_half_even_def floorlog_def)
next
  case False
  then have m: "0 < m" by simp
  have x: "(of_nat m :: rat) * 2 ^ s = of_nat (m * 2 ^ s)" by simp
  have "\<lfloor>(of_nat m :: rat) * 2 ^ s\<rfloor> = int (m * 2 ^ s)"
    by (simp only: x floor_of_nat)
  then have fl: "nat \<lfloor>(of_nat m :: rat) * 2 ^ s\<rfloor> = m * 2 ^ s"
    by (simp only: nat_int)
  have lg: "floorlog 2 (m * 2 ^ s) = floorlog 2 m + s"
    using m by (simp add: floorlog_power)
  have le: "floorlog 2 m \<le> p"
    using assms by (intro floorlog_leI) simp_all
  define k where "k = floorlog 2 m + s - p"
  have ks: "k \<le> s" using le by (simp add: k_def)
  have "s = k + (s - k)" using ks by simp
  then have p2: "(2::rat) ^ s = 2 ^ k * 2 ^ (s - k)" by (metis power_add)
  have q: "(of_nat m :: rat) * 2 ^ s / 2 ^ k = of_int (int m * 2 ^ (s - k))"
    by (simp add: p2)
  have "round_magnitude p s (of_nat m)
          = of_int (round_half_even ((of_nat m :: rat) * 2 ^ s / 2 ^ k)) * 2 ^ k / 2 ^ s"
    by (simp only: round_magnitude_def Let_def fl lg k_def)
  also have "\<dots> = of_int (int m * 2 ^ (s - k)) * 2 ^ k / 2 ^ s"
    by (simp only: q rhe_of_int)
  also have "\<dots> = of_nat m"
    by (simp add: p2)
  finally show ?thesis .
qed


lemma round_magnitude_upper:
  assumes rep: "round_magnitude p s X = X" and q: "0 \<le> q" "q \<le> X"
  shows "round_magnitude p s q \<le> X"
proof -
  define kq where "kq = floorlog 2 (nat \<lfloor>q * 2 ^ s\<rfloor>) - p"
  define kX where "kX = floorlog 2 (nat \<lfloor>X * 2 ^ s\<rfloor>) - p"
  define nX where "nX = round_half_even (X * 2 ^ s / 2 ^ kX)"
  have xs: "q * 2 ^ s \<le> X * 2 ^ s" using q(2) by simp
  then have "nat \<lfloor>q * 2 ^ s\<rfloor> \<le> nat \<lfloor>X * 2 ^ s\<rfloor>"
    by (intro nat_mono floor_mono)
  then have k: "kq \<le> kX"
    unfolding kq_def kX_def by (intro diff_le_mono floorlog_mono)
  have "of_int nX * 2 ^ kX / 2 ^ s = X"
    using rep by (simp only: round_magnitude_def Let_def kX_def nX_def)
  then have X: "X * 2 ^ s = of_int nX * 2 ^ kX" by (simp add: field_simps)
  have "kX = kq + (kX - kq)" using k by simp
  then have p2: "(2::rat) ^ kX = 2 ^ kq * 2 ^ (kX - kq)" by (metis power_add)
  have N: "X * 2 ^ s / 2 ^ kq = of_int (nX * 2 ^ (kX - kq))"
    by (simp add: X p2)
  have "q * 2 ^ s / 2 ^ kq \<le> X * 2 ^ s / 2 ^ kq"
    using xs by (simp add: divide_right_mono)
  then have "round_half_even (q * 2 ^ s / 2 ^ kq) \<le> nX * 2 ^ (kX - kq)"
    unfolding N by (rule rhe_le)
  then have "(of_int (round_half_even (q * 2 ^ s / 2 ^ kq)) :: rat) \<le> of_int (nX * 2 ^ (kX - kq))"
    by (simp only: of_int_le_iff)
  then have "of_int (round_half_even (q * 2 ^ s / 2 ^ kq)) * 2 ^ kq
               \<le> (of_int (nX * 2 ^ (kX - kq)) :: rat) * 2 ^ kq"
    by (rule mult_right_mono) simp
  then have "of_int (round_half_even (q * 2 ^ s / 2 ^ kq)) * 2 ^ kq / 2 ^ s
               \<le> (of_int (nX * 2 ^ (kX - kq)) :: rat) * 2 ^ kq / 2 ^ s"
    by (rule divide_right_mono) simp
  also have "\<dots> = X * 2 ^ s / 2 ^ s" by (simp add: X p2)
  also have "\<dots> = X" by simp
  finally show ?thesis
    by (simp only: round_magnitude_def Let_def kq_def)
qed

lemma round_magnitude_lower:
  assumes p: "0 < p" and a: "1 \<le> a * 2 ^ s"
  shows "a / 2 \<le> round_magnitude p s a"
proof -
  define x where "x = a * 2 ^ s"
  define n0 where "n0 = nat \<lfloor>x\<rfloor>"
  define k where "k = floorlog 2 n0 - p"
  define z where "z = x / 2 ^ k"
  have x1: "1 \<le> x" using a by (simp add: x_def)
  then have "1 \<le> \<lfloor>x\<rfloor>" by simp
  then have n0: "0 < n0" by (simp add: n0_def)
  have "of_int \<lfloor>x\<rfloor> \<le> x" by (rule of_int_floor_le)
  then have n0x: "of_nat n0 \<le> x" using \<open>1 \<le> \<lfloor>x\<rfloor>\<close> by (simp add: n0_def)
  have z1: "1 \<le> z"
  proof (cases "k = 0")
    case True
    then show ?thesis using x1 by (simp add: z_def)
  next
    case False
    then have "k \<le> floorlog 2 n0 - 1" using p by (simp add: k_def)
    then have "(2::nat) ^ k \<le> 2 ^ (floorlog 2 n0 - 1)" by (simp add: power_increasing)
    also have "\<dots> \<le> n0" using floorlog_bounds [of n0 2] n0 by simp
    finally have "(2::nat) ^ k \<le> n0" .
    then have "(of_nat ((2::nat) ^ k) :: rat) \<le> of_nat n0" by (simp only: of_nat_le_iff)
    from this n0x have "(of_nat ((2::nat) ^ k) :: rat) \<le> x" by (rule order_trans)
    moreover have "(of_nat ((2::nat) ^ k) :: rat) = 2 ^ k" by simp
    ultimately have "(2::rat) ^ k \<le> x" by simp
    then show ?thesis by (simp add: z_def)
  qed
  have "z - 1/2 \<le> of_int (round_half_even z)" by (rule rhe_ge)
  with z1 have "z / 2 \<le> of_int (round_half_even z)" by linarith
  then have "z / 2 * 2 ^ k \<le> of_int (round_half_even z) * 2 ^ k"
    by (rule mult_right_mono) simp
  then have le: "z / 2 * 2 ^ k / 2 ^ s \<le> of_int (round_half_even z) * 2 ^ k / 2 ^ s"
    by (rule divide_right_mono) simp
  have e: "z / 2 * 2 ^ k / 2 ^ s = a / 2" by (simp add: z_def x_def)
  from le have "a / 2 \<le> of_int (round_half_even z) * 2 ^ k / 2 ^ s" unfolding e .
  then show ?thesis
    by (simp only: round_magnitude_def Let_def z_def x_def k_def n0_def)
qed

lemma round_binary_int:
  assumes "\<bar>i\<bar> < 2 ^ p" and "p \<le> emax"
  shows "round_binary p s emax (of_int i) = Fin (of_int i)"
proof -
  define m where "m = nat \<bar>i\<bar>"
  have m: "m < 2 ^ p" using assms(1) by (simp add: m_def nat_less_iff)
  have abs: "\<bar>of_int i :: rat\<bar> = of_nat m" by (simp add: m_def)
  have rm: "round_magnitude p s \<bar>of_int i :: rat\<bar> = of_nat m"
    unfolding abs using m by (rule round_magnitude_nat)
  have pe: "(2::nat) ^ p \<le> 2 ^ emax" using assms(2) by (simp add: power_increasing)
  from m pe have "m < 2 ^ emax" by (rule less_le_trans)
  then have "(of_nat m :: rat) < of_nat (2 ^ emax)" by (simp only: of_nat_less_iff)
  then have lt: "\<not> (2::rat) ^ emax \<le> of_nat m" by simp
  have sg: "(if (of_int i :: rat) < 0 then - of_nat m else of_nat m) = of_int i"
    by (simp add: m_def)
  show ?thesis
    by (simp only: round_binary_def Let_def rm lt if_False sg)
qed

lemma round_binary_below:
  assumes rep: "round_binary p s emax X = Fin X" and q: "\<bar>q\<bar> \<le> \<bar>X\<bar>"
  shows "\<exists>v. round_binary p s emax q = Fin v"
proof -
  from rep have lt: "\<not> 2 ^ emax \<le> round_magnitude p s \<bar>X\<bar>"
    and v: "(if X < 0 then - round_magnitude p s \<bar>X\<bar> else round_magnitude p s \<bar>X\<bar>) = X"
    by (auto simp: round_binary_def Let_def split: if_splits)
  from v have r: "round_magnitude p s \<bar>X\<bar> = \<bar>X\<bar>" by (auto split: if_splits)
  from round_magnitude_upper [OF r _ q] have "round_magnitude p s \<bar>q\<bar> \<le> \<bar>X\<bar>" by simp
  with lt r have "\<not> 2 ^ emax \<le> round_magnitude p s \<bar>q\<bar>" by simp
  then show ?thesis by (simp add: round_binary_def Let_def)
qed

lemma round_binary_overflow:
  assumes "0 < p" and "2 ^ (emax + 1) \<le> \<bar>r\<bar>"
  shows "round_binary p s emax r = (if 0 < r then PInf else NInf)"
proof -
  have "(1::rat) \<le> 2 ^ (emax + 1)" by (rule one_le_power) simp
  with assms(2) have r1: "1 \<le> \<bar>r\<bar>" by linarith
  have "(1::rat) \<le> 2 ^ s" by (rule one_le_power) simp
  with r1 have "1 * 1 \<le> \<bar>r\<bar> * 2 ^ s" by (intro mult_mono) simp_all
  then have "1 \<le> \<bar>r\<bar> * 2 ^ s" by simp
  from round_magnitude_lower [OF assms(1) this] assms(2)
  have "2 ^ emax \<le> round_magnitude p s \<bar>r\<bar>" by simp
  then show ?thesis by (simp add: round_binary_def Let_def)
qed

lemma round_binary_nonzero:
  assumes "0 < p" and "1 \<le> \<bar>r\<bar>"
  shows "round_binary p s emax r \<noteq> Fin 0"
proof -
  have "(1::rat) \<le> 2 ^ s" by (rule one_le_power) simp
  with assms(2) have "1 * 1 \<le> \<bar>r\<bar> * 2 ^ s" by (intro mult_mono) simp_all
  then have "1 \<le> \<bar>r\<bar> * 2 ^ s" by simp
  from round_magnitude_lower [OF assms(1) this] assms(2)
  have "0 < round_magnitude p s \<bar>r\<bar>" by linarith
  then show ?thesis by (auto simp: round_binary_def Let_def split: if_splits)
qed

lemma float32_int: "\<bar>i\<bar> < 2 ^ 24 \<Longrightarrow> float32 (of_int i) = Fin (of_int i)"
  by (simp add: float32_def round_binary_int)

lemma float64_int: "\<bar>i\<bar> < 2 ^ 53 \<Longrightarrow> float64 (of_int i) = Fin (of_int i)"
  by (simp add: float64_def round_binary_int)

lemma float32_numeral:
  "(numeral w :: int) < 2 ^ 24 \<Longrightarrow> float32 (numeral w) = Fin (numeral w)"
  "(numeral w :: int) < 2 ^ 24 \<Longrightarrow> float32 (- numeral w) = Fin (- numeral w)"
  "float32 0 = Fin 0" "float32 1 = Fin 1"
  using float32_int [of "numeral w"] float32_int [of "- numeral w"]
        float32_int [of 0] float32_int [of 1]
  by simp_all

lemma float64_numeral:
  "(numeral w :: int) < 2 ^ 53 \<Longrightarrow> float64 (numeral w) = Fin (numeral w)"
  "(numeral w :: int) < 2 ^ 53 \<Longrightarrow> float64 (- numeral w) = Fin (- numeral w)"
  "float64 0 = Fin 0" "float64 1 = Fin 1"
  using float64_int [of "numeral w"] float64_int [of "- numeral w"]
        float64_int [of 0] float64_int [of 1]
  by simp_all

lemma float32_overflow: "2 ^ 129 \<le> \<bar>r\<bar> \<Longrightarrow> float32 r = (if 0 < r then PInf else NInf)"
  using round_binary_overflow [of 24 128 r 149] by (simp add: float32_def)

lemma float64_overflow: "2 ^ 1025 \<le> \<bar>r\<bar> \<Longrightarrow> float64 r = (if 0 < r then PInf else NInf)"
  using round_binary_overflow [of 53 1024 r 1074] by (simp add: float64_def)

lemma float64_below:
  "float64 X = Fin X \<Longrightarrow> \<bar>q\<bar> \<le> \<bar>X\<bar> \<Longrightarrow> \<exists>v. float64 q = Fin v"
  unfolding float64_def by (rule round_binary_below)

lemma float64_nonzero: "1 \<le> \<bar>r\<bar> \<Longrightarrow> float64 r \<noteq> Fin 0"
  unfolding float64_def by (rule round_binary_nonzero) simp

lemmas float_eval = float32_numeral float64_numeral float32_overflow float64_overflow

section \<open>Properties of \<open>preprocess_input\<close>\<close>

lemma boolean_index_map: "boolean_index X (map P X) = filter P X"
  unfolding boolean_index_def by (induction X) auto

lemma count_dropped: "length (filter (\<lambda>b. \<not> b) (map P X)) = length (filter (\<lambda>x. \<not> P x) X)"
  by (induction X) auto

lemma all_mask: "list_all (\<lambda>b. b) (map P X) = list_all P X"
  by (induction X) auto

lemma filter_all: "list_all P X \<Longrightarrow> filter P X = X"
  by (induction X) auto

text \<open>The function in closed form: the kept rows are the rows of the converted matrix
  without an infinity.\<close>

lemma preprocess_input_closed:
  "preprocess_input X sc =
     ((if list_all (\<lambda>row. \<not> list_ex isinf row) (astype_float32 X) then None
       else Some (length (filter (list_ex isinf) (astype_float32 X)))),
      (case sc of
         None \<Rightarrow> Inr (filter (\<lambda>row. \<not> list_ex isinf row) (astype_float32 X))
       | Some s \<Rightarrow> s (filter (\<lambda>row. \<not> list_ex isinf row) (astype_float32 X))))"
proof -
  let ?ok = "\<lambda>row. \<not> list_ex isinf row"
  let ?Y = "astype_float32 X"
  have dropped: "length (filter (\<lambda>b. \<not> b) (map ?ok ?Y)) = length (filter (list_ex isinf) ?Y)"
    using count_dropped [of ?ok ?Y] by simp
  show ?thesis
  proof (cases "list_all ?ok ?Y")
    case True
    then show ?thesis
      unfolding preprocess_input_def Let_def
      by (simp only: all_mask filter_all if_True if_False not_True_eq_False)
  next
    case False
    then show ?thesis
      unfolding preprocess_input_def Let_def
      by (simp only: all_mask boolean_index_map dropped if_True if_False not_False_eq_True)
  qed
qed

text \<open>In terms of the rows of the input: a row is dropped when one of its entries is
  infinite once converted.\<close>

lemma kept_rows:
  "filter (\<lambda>row. \<not> list_ex isinf row) (astype_float32 X) =
   map (map cast32) (filter (\<lambda>row. \<not> list_ex (\<lambda>v. isinf (cast32 v)) row) X)"
  by (induction X) (simp_all add: astype_float32_def list_ex_iff)

lemma dropped_rows:
  "length (filter (list_ex isinf) (astype_float32 X)) =
   length (filter (list_ex (\<lambda>v. isinf (cast32 v))) X)"
  by (induction X) (simp_all add: astype_float32_def list_ex_iff)

lemma all_kept_iff:
  "list_all (\<lambda>row. \<not> list_ex isinf row) (astype_float32 X) \<longleftrightarrow>
   length (filter (list_ex (\<lambda>v. isinf (cast32 v))) X) = 0"
  by (induction X) (simp_all add: astype_float32_def list_ex_iff)

lemma kept_plus_dropped:
  "length (filter (\<lambda>row. \<not> list_ex (\<lambda>v. isinf (cast32 v)) row) X) +
   length (filter (list_ex (\<lambda>v. isinf (cast32 v))) X) = length X"
  by (induction X) auto

lemma isnan_cast32: "isnan (cast32 v) = isnan v"
  by (cases v) (auto simp: float32_def round_binary_def Let_def)

text \<open>
  C4, as the code has it. The rows that \<open>preprocess_input\<close> excludes are exactly the rows
  with an entry that is infinite once converted to float32: an infinity, or a finite
  value too large for float32. The other rows are returned (or handed to the scaler when
  there is one) converted to float32 and in their order. Whenever a row is excluded, the
  count printed in the warning is the number of excluded rows; nothing is printed when
  no row is excluded.
\<close>

theorem preprocess_input_excludes_infinite_rows:
  "snd (preprocess_input X None) =
     Inr (map (map cast32) (filter (\<lambda>row. \<not> list_ex (\<lambda>v. isinf (cast32 v)) row) X)) \<and>
   snd (preprocess_input X (Some s)) =
     s (map (map cast32) (filter (\<lambda>row. \<not> list_ex (\<lambda>v. isinf (cast32 v)) row) X)) \<and>
   length (filter (\<lambda>row. \<not> list_ex (\<lambda>v. isinf (cast32 v)) row) X) +
     length (filter (list_ex (\<lambda>v. isinf (cast32 v))) X) = length X \<and>
   fst (preprocess_input X sc) =
     (if length (filter (list_ex (\<lambda>v. isinf (cast32 v))) X) = 0 then None
      else Some (length (filter (list_ex (\<lambda>v. isinf (cast32 v))) X)))"
proof -
  have a: "snd (preprocess_input X None) =
     Inr (map (map cast32) (filter (\<lambda>row. \<not> list_ex (\<lambda>v. isinf (cast32 v)) row) X))"
    by (simp add: preprocess_input_closed kept_rows)
  have b: "snd (preprocess_input X (Some s)) =
     s (map (map cast32) (filter (\<lambda>row. \<not> list_ex (\<lambda>v. isinf (cast32 v)) row) X))"
    by (simp add: preprocess_input_closed kept_rows)
  have c: "fst (preprocess_input X sc) =
     (if length (filter (list_ex (\<lambda>v. isinf (cast32 v))) X) = 0 then None
      else Some (length (filter (list_ex (\<lambda>v. isinf (cast32 v))) X)))"
    unfolding preprocess_input_closed fst_conv all_kept_iff dropped_rows ..
  from a b c kept_plus_dropped [of X] show ?thesis by blast
qed

theorem preprocess_input_excludes_infinite_rows_witness:
  "preprocess_input [[Fin 1, PInf], [Fin 2, NaN], [NInf, Fin 0], [Fin (10 ^ 39), Fin 5]] None
     = (Some 3, Inr [[Fin 2, NaN]])"
  using preprocess_input_excludes_infinite_rows
          [of "[[Fin 1, PInf], [Fin 2, NaN], [NInf, Fin 0], [Fin (10 ^ 39), Fin 5]]" "Inr" None]
  by (simp add: prod_eq_iff float_eval)

text \<open>
  C4 as it is written fails: a row of finite values, one of them too large for float32, is
  excluded and counted although it contains no infinite value.
\<close>

theorem preprocess_input_excludes_finite_row_counterexample:
  "\<not> list_ex isinf [Fin 1, Fin (10 ^ 39)] \<and>
   preprocess_input [[Fin 1, Fin (10 ^ 39)], [Fin 2, Fin 3]] None = (Some 1, Inr [[Fin 2, Fin 3]])"
  by (simp add: preprocess_input_closed astype_float32_def float_eval)

text \<open>
  C5, as the code has it. A matrix that contains NaN values and no value that is infinite
  once converted to float32 keeps every row: nothing is printed, and the matrix returned
  (or handed to the scaler) is the input converted to float32, with as many rows and with
  its NaN entries still NaN.
\<close>

theorem preprocess_input_keeps_nan_rows:
  assumes "list_ex (list_ex isnan) X"
      and "list_all (\<lambda>row. \<not> list_ex (\<lambda>v. isinf (cast32 v)) row) X"
  shows "preprocess_input X None = (None, Inr (astype_float32 X)) \<and>
         preprocess_input X (Some s) = (None, s (astype_float32 X)) \<and>
         length (astype_float32 X) = length X \<and>
         map (map isnan) (astype_float32 X) = map (map isnan) X"
proof -
  from assms(2) have ok: "list_all (\<lambda>row. \<not> list_ex isinf row) (astype_float32 X)"
    by (induction X) (simp_all add: astype_float32_def list_ex_iff)
  have n: "map (map isnan) (astype_float32 X) = map (map isnan) X"
    by (simp add: astype_float32_def isnan_cast32 comp_def)
  from ok n show ?thesis
    by (simp add: preprocess_input_closed filter_all) (simp add: astype_float32_def)
qed

theorem preprocess_input_keeps_nan_rows_witness:
  "list_ex (list_ex isnan) [[Fin 3, NaN], [NaN, NaN]] \<and>
   preprocess_input [[Fin 3, NaN], [NaN, NaN]] None = (None, Inr [[Fin 3, NaN], [NaN, NaN]])"
proof -
  have h1: "list_ex (list_ex isnan) [[Fin 3, NaN], [NaN, NaN]]" by simp
  have h2: "list_all (\<lambda>row. \<not> list_ex (\<lambda>v. isinf (cast32 v)) row) [[Fin 3, NaN], [NaN, NaN]]"
    by (simp add: float_eval)
  have c: "astype_float32 [[Fin 3, NaN], [NaN, NaN]] = [[Fin 3, NaN], [NaN, NaN]]"
    by (simp add: astype_float32_def float_eval)
  from preprocess_input_keeps_nan_rows [OF h1 h2, of Inr] h1 show ?thesis
    unfolding c by simp
qed

text \<open>
  C5 as it is written fails: a row with a NaN and a finite value too large for float32
  holds no infinite value, and is dropped.
\<close>

theorem preprocess_input_drops_nan_row_counterexample:
  "list_ex (list_ex isnan) [[NaN, Fin (10 ^ 39)]] \<and>
   list_all (\<lambda>row. \<not> list_ex isinf row) [[NaN, Fin (10 ^ 39)]] \<and>
   preprocess_input [[NaN, Fin (10 ^ 39)]] None = (Some 1, Inr [])"
  by (simp add: preprocess_input_closed astype_float32_def float_eval)

text \<open>
  C6, as the code has it. With no scaler, a matrix of float32 values (one that the
  conversion to float32 leaves as it is) none of whose rows holds an infinite value is
  returned as it is, and nothing is printed.
\<close>

theorem preprocess_input_identity_without_scaler:
  assumes "astype_float32 X = X"
      and "list_all (\<lambda>row. \<not> list_ex isinf row) X"
  shows "preprocess_input X None = (None, Inr X)"
  using assms by (simp add: preprocess_input_closed filter_all)

theorem preprocess_input_identity_without_scaler_witness:
  "astype_float32 [[Fin 100, Fin 7], [Fin 0, Fin (-7)]] = [[Fin 100, Fin 7], [Fin 0, Fin (-7)]] \<and>
   list_all (\<lambda>row. \<not> list_ex isinf row) [[Fin 100, Fin 7], [Fin 0, Fin (-7)]] \<and>
   preprocess_input [[Fin 100, Fin 7], [Fin 0, Fin (-7)]] None
     = (None, Inr [[Fin 100, Fin 7], [Fin 0, Fin (-7)]])"
proof -
  have c: "astype_float32 [[Fin 100, Fin 7], [Fin 0, Fin (-7)]] = [[Fin 100, Fin 7], [Fin 0, Fin (-7)]]"
    by (simp add: astype_float32_def float_eval)
  have h: "list_all (\<lambda>row. \<not> list_ex isinf row) [[Fin 100, Fin 7], [Fin 0, Fin (-7)]]"
    by simp
  from preprocess_input_identity_without_scaler [OF c h] c h show ?thesis by blast
qed

text \<open>
  C6 as it is written fails: a matrix of finite values, one of them too large for float32,
  comes back without its row.
\<close>

theorem preprocess_input_not_identity_counterexample:
  "list_all (\<lambda>row. list_all (\<lambda>v. \<not> isinf v \<and> \<not> isnan v) row) [[Fin (- (10 ^ 39)), Fin 1]] \<and>
   preprocess_input [[Fin (- (10 ^ 39)), Fin 1]] None = (Some 1, Inr [])"
  by (simp add: preprocess_input_closed astype_float32_def float_eval)

section \<open>Properties of \<open>load_model_from_folder\<close>\<close>

text \<open>
  C7. When the directory holds \<open>model.h5\<close> or \<open>keras_model.h5\<close> and the neural-network
  runtime is not available (\<open>keras\<close> is \<open>None\<close>), the loader raises the RuntimeError that
  says so, whatever else the directory holds: it never goes on to the scikit-learn
  candidates.
\<close>

theorem load_model_from_folder_requires_keras:
  assumes "keras env = None"
      and "exists env (path_join (abspath env (if p = [] then ''.'' else p)) ''model.h5'') \<or>
           exists env (path_join (abspath env (if p = [] then ''.'' else p)) ''keras_model.h5'')"
  shows "load_model_from_folder env p =
           Inl (RuntimeError ''TensorFlow/Keras not available for .h5 model'')"
  using assms unfolding load_model_from_folder_def Let_def by auto

theorem load_model_from_folder_requires_keras_witness:
  "keras no_keras_env = None \<and>
   exists no_keras_env (path_join (abspath no_keras_env ''/srv/models'') ''keras_model.h5'') \<and>
   exists no_keras_env (path_join (abspath no_keras_env ''/srv/models'') ''model.pkl'') \<and>
   load_model_from_folder no_keras_env ''/srv/models'' =
     Inl (RuntimeError ''TensorFlow/Keras not available for .h5 model'')"
proof -
  have k: "keras no_keras_env = None" by (simp add: no_keras_env_def)
  have x: "exists no_keras_env (path_join (abspath no_keras_env ''/srv/models'') ''keras_model.h5'')"
    by (simp add: no_keras_env_def path_join_def)
  have y: "exists no_keras_env (path_join (abspath no_keras_env ''/srv/models'') ''model.pkl'')"
    by (simp add: no_keras_env_def path_join_def)
  from load_model_from_folder_requires_keras [of no_keras_env "''/srv/models''", OF k] x y k
  show ?thesis by simp
qed

section \<open>Properties of \<open>predict_threat\<close>\<close>

lemmas threat_eval =
  predict_threat_def feature_names_def dict_get_def to_float32_def default_scaler_def
  preprocess_input_closed confidence_step_def raw_confidence_def np_max_def np_mean_def
  fmax_def prediction_step_def pred_body_def array_to_scalar_def argmax_axis1_def
  np_argmax_def np_array_def int_to_float_def astype_float32_def float_eval

lemma fmax_unit: "in_unit_interval a \<Longrightarrow> in_unit_interval b \<Longrightarrow> in_unit_interval (fmax a b)"
  by (cases a; cases b) (simp_all add: fmax_def)

lemma foldl_fmax_unit:
  "in_unit_interval a \<Longrightarrow> list_all in_unit_interval xs \<Longrightarrow> in_unit_interval (foldl fmax a xs)"
  by (induction xs arbitrary: a) (simp_all add: fmax_unit)

lemma np_max_unit:
  "np_max xs = Inr c \<Longrightarrow> list_all in_unit_interval xs \<Longrightarrow> in_unit_interval c"
  by (cases xs) (auto simp: np_max_def foldl_fmax_unit)

text \<open>A sum of \<open>n\<close> numbers between 0 and 1 is a number between 0 and \<open>n\<close>.\<close>

lemma foldl_fadd_unit:
  "list_all in_unit_interval xs \<Longrightarrow>
   \<exists>t. foldl fadd (Fin a) xs = Fin t \<and> a \<le> t \<and> t \<le> a + of_nat (length xs)"
proof (induction xs arbitrary: a)
  case Nil
  then show ?case by simp
next
  case (Cons x xs)
  from Cons.prems obtain r where x: "x = Fin r" and r: "0 \<le> r" "r \<le> 1"
    by (cases x) auto
  from Cons.prems have "list_all in_unit_interval xs" by simp
  from Cons.IH [OF this, of "a + r"] obtain t
    where t: "foldl fadd (Fin (a + r)) xs = Fin t" "a + r \<le> t" "t \<le> a + r + of_nat (length xs)"
    by blast
  have "foldl fadd (Fin a) (x # xs) = Fin t" using t(1) x by simp
  moreover have "a \<le> t" using t(2) r(1) by linarith
  moreover have "t \<le> a + of_nat (length (x # xs))" using t(3) r(2) by simp
  ultimately show ?case by blast
qed

lemma np_mean_unit:
  assumes "xs \<noteq> []" and "list_all in_unit_interval xs"
  shows "in_unit_interval (np_mean xs)"
proof -
  from foldl_fadd_unit [OF assms(2), of 0] obtain t
    where t: "foldl fadd (Fin 0) xs = Fin t" "0 \<le> t" "t \<le> of_nat (length xs)"
    by auto
  have n: "(0::rat) < of_nat (length xs)" using assms(1) by simp
  have "t / of_nat (length xs) \<le> 1" using t(3) n by (simp add: divide_le_eq)
  moreover have "0 \<le> t / of_nat (length xs)" using t(2) n by simp
  ultimately show ?thesis using assms(1) t(1) by (simp add: np_mean_def)
qed

lemma unit_not_nan: "in_unit_interval x \<Longrightarrow> \<not> isnan x"
  by (cases x) auto

lemma proba_confidence_unit:
  assumes "proba_confidence proba = Inr c"
      and "entries proba \<noteq> []" and "list_all in_unit_interval (entries proba)"
  shows "in_unit_interval c"
proof (cases proba)
  case (NdArray1 xs)
  with assms np_mean_unit [of xs] show ?thesis by auto
next
  case (PySeries xs)
  from PySeries assms(3) have "list_all (\<lambda>x. \<not> isnan x) xs"
    by (auto simp: list_all_iff dest: unit_not_nan)
  then have "filter (\<lambda>x. \<not> isnan x) xs = xs" by (rule filter_all)
  with PySeries assms np_mean_unit [of xs] show ?thesis by auto
next
  case (NdArray2 k rows)
  with assms np_mean_unit [of "concat rows"] np_max_unit [of "concat rows" c]
  show ?thesis by (cases "1 < k") simp_all
qed (use assms in simp_all)

lemma np_array_entries:
  "np_array rows = Inr proba \<Longrightarrow> entries proba = concat rows"
  by (auto simp: np_array_def split: if_splits)

lemma raw_confidence_unit:
  assumes "raw_confidence m X = Inr c"
      and "\<And>call out. predict m = Some call \<Longrightarrow> call X = Inr out \<Longrightarrow>
             list_all in_unit_interval (entries out)"
  shows "in_unit_interval c"
proof -
  from assms(1) obtain call out where c: "predict m = Some call" "call X = Inr out"
    and r: "(case out of NdArray1 xs \<Rightarrow> np_max xs | NdArray2 k rows \<Rightarrow> np_max (concat rows)
             | _ \<Rightarrow> Inr (Fin (1/2))) = Inr c"
    by (auto simp: raw_confidence_def split: option.splits sum.splits)
  from assms(2) [OF c] have u: "list_all in_unit_interval (entries out)" .
  from r u show ?thesis by (cases out) (auto dest: np_max_unit)
qed

lemma confidence_step_unit:
  assumes "confidence_step m X = Inr c"
      and proba: "\<And>call out. predict_proba m = Some call \<Longrightarrow> call X = Inr out \<Longrightarrow>
             entries out \<noteq> [] \<and> list_all in_unit_interval (entries out)"
      and raw: "\<And>call out. predict_proba m = None \<Longrightarrow> predict m = Some call \<Longrightarrow>
             call X = Inr out \<Longrightarrow> list_all in_unit_interval (entries out)"
  shows "in_unit_interval c"
proof (cases "predict_proba m")
  case None
  show ?thesis
  proof (cases "raw_confidence m X")
    case (Inl e)
    with None assms(1) have "c = Fin (1/2)" by (simp add: confidence_step_def)
    then show ?thesis by simp
  next
    case (Inr c')
    from raw_confidence_unit [OF Inr] raw [OF None] have "in_unit_interval c'" by blast
    with None Inr assms(1) show ?thesis by (simp add: confidence_step_def)
  qed
next
  case (Some call)
  with assms(1) obtain out pr where o: "call X = Inr out"
    and pr: "(case out of PyList rows \<Rightarrow> np_array rows | _ \<Rightarrow> Inr out) = Inr pr"
    and c: "proba_confidence pr = Inr c"
    by (auto simp: confidence_step_def split: sum.splits)
  from proba [OF Some o] have u: "entries out \<noteq> []" "list_all in_unit_interval (entries out)"
    by simp_all
  from pr have "entries pr = entries out"
    by (cases out) (auto dest: np_array_entries)
  with u proba_confidence_unit [OF c] show ?thesis by simp
qed

text \<open>
  C1, as the code has it. The confidence is the largest (or the mean) of the numbers that
  the model returned, taken as they are. When every array that the model returns holds
  only numbers between 0 and 1 (the output of \<open>predict_proba\<close> when the model has it, not
  empty; the output of \<open>predict\<close> otherwise), the confidence of the returned Decision
  Record lies between 0 and 1; so does the default 0.5 that stands in when the fallback
  call of \<open>predict\<close> fails.
\<close>

theorem predict_threat_confidence_of_probabilities:
  assumes "\<And>call X out. predict_proba m = Some call \<Longrightarrow> call X = Inr out \<Longrightarrow>
             entries out \<noteq> [] \<and> list_all in_unit_interval (entries out)"
      and "\<And>call X out. predict_proba m = None \<Longrightarrow> predict m = Some call \<Longrightarrow>
             call X = Inr out \<Longrightarrow> list_all in_unit_interval (entries out)"
      and "predict_threat env features m = Inr d"
  shows "in_unit_interval (confidence d)"
proof -
  from assms(3) obtain X c where "confidence_step m X = Inr c" and "confidence d = c"
    unfolding predict_threat_def Let_def by (auto split: sum.splits)
  with confidence_step_unit [of m X c] assms(1,2) show ?thesis by blast
qed

theorem predict_threat_confidence_of_probabilities_witness:
  "predict_threat plain_env Map.empty forest_model =
     Inr \<lparr>prediction = ''malicious'', confidence = Fin (4/5), is_malicious = True,
          attack_type = ''anomaly'', inference_time = 0\<rparr> \<and>
   predict_threat plain_env Map.empty sigmoid_model =
     Inr \<lparr>prediction = ''benign'', confidence = Fin (9/10), is_malicious = False,
          attack_type = ''benign'', inference_time = 0\<rparr> \<and>
   in_unit_interval (Fin (4/5)) \<and> in_unit_interval (Fin (9/10))"
proof -
  have f: "predict_threat plain_env Map.empty forest_model =
     Inr \<lparr>prediction = ''malicious'', confidence = Fin (4/5), is_malicious = True,
          attack_type = ''anomaly'', inference_time = 0\<rparr>"
    by (simp add: threat_eval plain_env_def forest_model_def)
  have s: "predict_threat plain_env Map.empty sigmoid_model =
     Inr \<lparr>prediction = ''benign'', confidence = Fin (9/10), is_malicious = False,
          attack_type = ''benign'', inference_time = 0\<rparr>"
    by (simp add: threat_eval plain_env_def sigmoid_model_def)
  have f1: "\<And>call X out. predict_proba forest_model = Some call \<Longrightarrow> call X = Inr out \<Longrightarrow>
             entries out \<noteq> [] \<and> list_all in_unit_interval (entries out)"
    by (auto simp: forest_model_def)
  have f2: "\<And>call X out. predict_proba forest_model = None \<Longrightarrow>
             predict forest_model = Some call \<Longrightarrow>
             call X = Inr out \<Longrightarrow> list_all in_unit_interval (entries out)"
    by (auto simp: forest_model_def)
  have s1: "\<And>call X out. predict_proba sigmoid_model = Some call \<Longrightarrow> call X = Inr out \<Longrightarrow>
             entries out \<noteq> [] \<and> list_all in_unit_interval (entries out)"
    by (auto simp: sigmoid_model_def)
  have s2: "\<And>call X out. predict_proba sigmoid_model = None \<Longrightarrow>
             predict sigmoid_model = Some call \<Longrightarrow>
             call X = Inr out \<Longrightarrow> list_all in_unit_interval (entries out)"
    by (auto simp: sigmoid_model_def)
  from predict_threat_confidence_of_probabilities [OF f1 f2 f]
       predict_threat_confidence_of_probabilities [OF s1 s2 s] f s
  show ?thesis by simp
qed

text \<open>
  C1 does not hold for every model: a classifier without \<open>predict_proba\<close> whose
  \<open>predict\<close> answers with the class label 2 gets that label as its confidence.
\<close>

theorem predict_threat_confidence_counterexample:
  "predict_threat plain_env Map.empty label_model =
     Inr \<lparr>prediction = ''benign'', confidence = Fin 2, is_malicious = False,
          attack_type = ''benign'', inference_time = 0\<rparr> \<and>
   \<not> in_unit_interval (Fin 2)"
  by (simp add: threat_eval plain_env_def label_model_def)

text \<open>
  The fallback path does absorb a fault: for a model without \<open>predict_proba\<close> whose
  \<open>predict\<close> is missing or raises, the Decision Record holds the defaults, once the
  feature vector has been built and scaled.
\<close>

lemma predict_threat_absorbs_predict_fault:
  assumes "predict_proba m = None"
      and "\<And>call X. predict m = Some call \<Longrightarrow> \<exists>e. call X = Inl e"
      and "np_array_row env (map (\<lambda>key. dict_get features key (PyInt 0)) feature_names)
             = Inr row"
      and "default_scaler env = Inr sc"
      and "snd (preprocess_input [row] sc) = Inr X"
  shows "predict_threat env features m =
           Inr \<lparr>prediction = ''benign'', confidence = Fin (1/2), is_malicious = False,
                attack_type = ''benign'', inference_time = 0\<rparr>"
proof -
  have "\<exists>e. raw_confidence m X = Inl e"
    using assms(2) [of _ X] by (cases "predict m") (auto simp: raw_confidence_def)
  then have c: "confidence_step m X = Inr (Fin (1/2))"
    using assms(1) by (auto simp: confidence_step_def)
  have "\<exists>e. pred_body m X = Inl e"
    using assms(2) [of _ X] by (cases "predict m") (auto simp: pred_body_def)
  then have p: "prediction_step m X = PredNumber (Fin 0)"
    by (auto simp: prediction_step_def)
  show ?thesis
    unfolding predict_threat_def using assms(3,4,5) c p by simp
qed

text \<open>
  C2. A fault inside the model should be absorbed and answered with the defaults. The call
  of \<open>predict_proba\<close> stands outside every \<open>try\<close>: for a model that has \<open>predict_proba\<close>
  and whose \<open>predict_proba\<close> raises, \<open>predict_threat\<close> returns no Decision Record, the
  exception leaves the function.
\<close>

theorem predict_threat_propagates_predict_proba_fault:
  "predict_threat plain_env Map.empty failing_proba_model = Inl (Raised ''predict_proba failed'')"
  by (simp add: threat_eval plain_env_def failing_proba_model_def)

text \<open>
  C3. Every Decision Record that \<open>predict_threat\<close> returns has \<open>is_malicious\<close> true exactly
  when its \<open>prediction\<close> is the string \<open>malicious\<close>.
\<close>

theorem predict_threat_verdict_agrees:
  assumes "predict_threat env features m = Inr d"
  shows "is_malicious d = (prediction d = ''malicious'')"
  using assms unfolding predict_threat_def Let_def
  by (auto split: sum.splits if_splits)

theorem predict_threat_verdict_agrees_witness:
  "predict_threat plain_env [''byte_count'' \<mapsto> PyInt 1500] forest_model =
     Inr \<lparr>prediction = ''malicious'', confidence = Fin (4/5), is_malicious = True,
          attack_type = ''anomaly'', inference_time = 0\<rparr> \<and>
   predict_threat plain_env [''byte_count'' \<mapsto> PyInt 1500] failing_predict_model =
     Inr \<lparr>prediction = ''benign'', confidence = Fin (1/2), is_malicious = False,
          attack_type = ''benign'', inference_time = 0\<rparr>"
proof -
  have a: "predict_threat plain_env [''byte_count'' \<mapsto> PyInt 1500] forest_model =
     Inr \<lparr>prediction = ''malicious'', confidence = Fin (4/5), is_malicious = True,
          attack_type = ''anomaly'', inference_time = 0\<rparr>"
    by (simp add: threat_eval plain_env_def forest_model_def)
  have b: "predict_threat plain_env [''byte_count'' \<mapsto> PyInt 1500] failing_predict_model =
     Inr \<lparr>prediction = ''benign'', confidence = Fin (1/2), is_malicious = False,
          attack_type = ''benign'', inference_time = 0\<rparr>"
    by (simp add: threat_eval plain_env_def failing_predict_model_def)
  from predict_threat_verdict_agrees [OF a] predict_threat_verdict_agrees [OF b] a b
  show ?thesis by simp
qed

section \<open>Properties of \<open>extract_features\<close>\<close>

text \<open>A returned feature map is the six copied fields and the four derived ones.\<close>

lemma extract_features_result:
  assumes "extract_features flow = Inr f"
  shows "\<exists>pps bps aps pn.
           protocol_lookup (dict_get flow ''protocol'' (PyStr ''TCP'')) = Inr pn \<and>
           f = [''packet_count'' \<mapsto> dict_get flow ''packet_count'' (PyInt 0),
                ''byte_count'' \<mapsto> dict_get flow ''byte_count'' (PyInt 0),
                ''duration'' \<mapsto> dict_get flow ''duration_seconds'' (PyInt 0),
                ''protocol'' \<mapsto> dict_get flow ''protocol'' (PyStr ''TCP''),
                ''src_port'' \<mapsto> dict_get flow ''source_port'' (PyInt 0),
                ''dst_port'' \<mapsto> dict_get flow ''destination_port'' (PyInt 0),
                ''packets_per_second'' \<mapsto> pps,
                ''bytes_per_second'' \<mapsto> bps,
                ''avg_packet_size'' \<mapsto> aps,
                ''protocol_num'' \<mapsto> pn]"
  using assms unfolding extract_features_def Let_def
  by (simp split: sum.split_asm prod.split_asm) blast+

text \<open>A division by a value that passed the test \<open>> 0\<close> cannot raise
  ZeroDivisionError.\<close>

lemma int_truediv_error: "b \<noteq> 0 \<Longrightarrow> int_truediv a b = Inl e \<Longrightarrow> e = OverflowError"
  by (auto simp: int_truediv_def split: pyfloat.splits)

lemma float_div_error: "float_div x y = Inl e \<Longrightarrow> y = Fin 0 \<and> e = ZeroDivisionError"
  by (cases y) (auto split: if_splits)

lemma int_to_float_error: "int_to_float i = Inl e \<Longrightarrow> e = OverflowError"
  by (auto simp: int_to_float_def split: pyfloat.splits)

lemma as_float_error: "as_float v = Inl e \<Longrightarrow> e = TypeError \<or> e = OverflowError"
  by (cases v) (auto dest: int_to_float_error)

lemma int_abs_ge_one: "i \<noteq> 0 \<Longrightarrow> 1 \<le> \<bar>of_int i :: rat\<bar>"
proof -
  assume "i \<noteq> 0"
  then have "1 \<le> \<bar>i\<bar>" by linarith
  then have "(of_int 1 :: rat) \<le> of_int \<bar>i\<bar>" by (simp only: of_int_le_iff)
  then show ?thesis by simp
qed

lemma int_to_float_nonzero: "int_to_float i = Inr (Fin 0) \<Longrightarrow> i = 0"
proof (rule ccontr)
  assume z: "int_to_float i = Inr (Fin 0)" and "i \<noteq> 0"
  then have "float64 (of_int i) \<noteq> Fin 0" by (intro float64_nonzero int_abs_ge_one)
  with z show False by (auto simp: int_to_float_def split: pyfloat.splits)
qed

lemma as_float_positive: "gt_zero v = Inr True \<Longrightarrow> as_float v \<noteq> Inr (Fin 0)"
  by (cases v rule: gt_zero.cases) (auto dest: int_to_float_nonzero)

lemma as_int_positive: "gt_zero v = Inr True \<Longrightarrow> as_int v = Some j \<Longrightarrow> j \<noteq> 0"
  by (cases v rule: gt_zero.cases) auto

lemma py_truediv_guarded:
  assumes g: "gt_zero v = Inr True" and d: "py_truediv a v = Inl e"
  shows "e = TypeError \<or> e = OverflowError"
proof (cases "as_number a = None \<or> as_number v = None")
  case True
  with d show ?thesis by (simp add: py_truediv_def)
next
  case False
  show ?thesis
  proof (cases "\<exists>i j. as_int a = Some i \<and> as_int v = Some j")
    case True
    then obtain i j where ij: "as_int a = Some i" "as_int v = Some j" by blast
    from as_int_positive [OF g ij(2)] have "j \<noteq> 0" .
    with d False ij show ?thesis
      by (auto simp: py_truediv_def split: sum.splits dest: int_truediv_error)
  next
    case no: False
    from d False no have
      "(case as_float a of
          Inl e \<Rightarrow> Inl e
        | Inr x \<Rightarrow>
            (case as_float v of
               Inl e \<Rightarrow> Inl e
             | Inr y \<Rightarrow>
                 (case float_div x y of Inl e \<Rightarrow> Inl e | Inr q \<Rightarrow> Inr (PyFloat q)))) = Inl e"
      by (auto simp: py_truediv_def split: option.splits)
    then show ?thesis
      using as_float_positive [OF g]
      by (auto split: sum.splits dest: as_float_error float_div_error)
  qed
qed

lemma gt_zero_error: "gt_zero v = Inl e \<Longrightarrow> e = TypeError"
  by (cases v rule: gt_zero.cases) auto

lemma protocol_lookup_error: "protocol_lookup v = Inl e \<Longrightarrow> e = TypeError"
  by (cases v) auto

lemma extract_features_error:
  assumes "extract_features flow = Inl e"
  shows "e = TypeError \<or> e = OverflowError"
  using assms unfolding extract_features_def Let_def
  by (auto split: sum.splits if_splits
           dest: gt_zero_error protocol_lookup_error py_truediv_guarded)

text \<open>The division of two numbers that are floats, or integers that a float holds
  exactly, is the float nearest to the quotient.\<close>

lemma as_int_number: "as_int v = Some i \<Longrightarrow> as_number v = Some (Fin (of_int i))"
  by (cases v) auto

lemma as_float_exact:
  "as_number v = Some (Fin x) \<Longrightarrow> float64 x = Fin x \<Longrightarrow> as_float v = Inr (Fin x)"
  by (cases v) (auto simp: int_to_float_def)

lemma gt_zero_number: "as_number v = Some (Fin x) \<Longrightarrow> gt_zero v = Inr (0 < x)"
  by (cases v rule: gt_zero.cases) (auto split: if_splits)

lemma py_truediv_exact:
  assumes a: "as_number a = Some (Fin x)" and b: "as_number b = Some (Fin y)"
      and y: "y \<noteq> 0" and fx: "float64 x = Fin x" and fy: "float64 y = Fin y"
  shows "py_truediv a b = Inr (PyFloat (float64 (x / y)))"
proof (cases "\<exists>i j. as_int a = Some i \<and> as_int b = Some j")
  case True
  then obtain i j where ij: "as_int a = Some i" "as_int b = Some j" by blast
  from as_int_number [OF ij(1)] a have xi: "x = of_int i" by simp
  from as_int_number [OF ij(2)] b have yj: "y = of_int j" by simp
  from y yj have j: "j \<noteq> 0" by simp
  then have "1 \<le> \<bar>of_int j :: rat\<bar>" by (rule int_abs_ge_one)
  then have "\<bar>x\<bar> / \<bar>y\<bar> \<le> \<bar>x\<bar> / 1"
    unfolding yj by (intro divide_left_mono) simp_all
  then have "\<bar>x / y\<bar> \<le> \<bar>x\<bar>" by simp
  from float64_below [OF fx this] obtain v where v: "float64 (x / y) = Fin v" by blast
  then have "int_truediv i j = Inr (Fin v)"
    using j by (simp add: int_truediv_def xi yj)
  with a b ij v show ?thesis by (simp add: py_truediv_def)
next
  case False
  from as_float_exact [OF a fx] have xa: "as_float a = Inr (Fin x)" .
  from as_float_exact [OF b fy] have yb: "as_float b = Inr (Fin y)" .
  from False a b xa yb y show ?thesis
    by (auto simp: py_truediv_def split: option.splits)
qed

lemma extract_features_numeric:
  assumes pc: "as_number (dict_get flow ''packet_count'' (PyInt 0)) = Some (Fin pc)"
              "float64 pc = Fin pc"
      and bc: "as_number (dict_get flow ''byte_count'' (PyInt 0)) = Some (Fin bc)"
              "float64 bc = Fin bc"
      and dur: "as_number (dict_get flow ''duration_seconds'' (PyInt 0)) = Some (Fin dur)"
               "float64 dur = Fin dur"
      and proto: "dict_get flow ''protocol'' (PyStr ''TCP'') = PyStr proto"
  shows "\<exists>f. extract_features flow = Inr f \<and>
           f ''packets_per_second'' =
             Some (if 0 < dur then PyFloat (float64 (pc / dur)) else PyInt 0) \<and>
           f ''bytes_per_second'' =
             Some (if 0 < dur then PyFloat (float64 (bc / dur)) else PyInt 0) \<and>
           f ''avg_packet_size'' =
             Some (if 0 < pc then PyFloat (float64 (bc / pc)) else PyInt 0) \<and>
           f ''protocol_num'' =
             Some (PyInt (if proto = ''TCP'' then 6 else if proto = ''UDP'' then 17
                          else if proto = ''ICMP'' then 1 else 0))"
proof -
  have g1: "gt_zero (dict_get flow ''duration_seconds'' (PyInt 0)) = Inr (0 < dur)"
    by (rule gt_zero_number [OF dur(1)])
  have g2: "gt_zero (dict_get flow ''packet_count'' (PyInt 0)) = Inr (0 < pc)"
    by (rule gt_zero_number [OF pc(1)])
  have d1: "py_truediv (dict_get flow ''packet_count'' (PyInt 0))
              (dict_get flow ''duration_seconds'' (PyInt 0)) = Inr (PyFloat (float64 (pc / dur)))"
    if "0 < dur"
    using that by (intro py_truediv_exact pc dur) simp
  have d2: "py_truediv (dict_get flow ''byte_count'' (PyInt 0))
              (dict_get flow ''duration_seconds'' (PyInt 0)) = Inr (PyFloat (float64 (bc / dur)))"
    if "0 < dur"
    using that by (intro py_truediv_exact bc dur) simp
  have d3: "py_truediv (dict_get flow ''byte_count'' (PyInt 0))
              (dict_get flow ''packet_count'' (PyInt 0)) = Inr (PyFloat (float64 (bc / pc)))"
    if "0 < pc"
    using that by (intro py_truediv_exact bc pc) simp
  have l: "protocol_lookup (dict_get flow ''protocol'' (PyStr ''TCP'')) =
             Inr (PyInt (if proto = ''TCP'' then 6 else if proto = ''UDP'' then 17
                         else if proto = ''ICMP'' then 1 else 0))"
    unfolding proto by (simp add: protocol_map_def dict_get_def)
  show ?thesis
    unfolding extract_features_def Let_def g1 g2 l
    by (cases "0 < dur"; cases "0 < pc") (simp_all add: d1 d2 d3)
qed

text \<open>
  C10. For a flow record without a \<open>protocol\<close> field, \<open>extract_features\<close> behaves as for
  the same record with the protocol \<open>TCP\<close>: whenever it returns, the feature map has the
  protocol \<open>TCP\<close> and \<open>protocol_num\<close> 6. The number 0 is what a protocol string that is
  present and is none of \<open>TCP\<close>, \<open>UDP\<close>, \<open>ICMP\<close> gets.
\<close>

theorem extract_features_absent_protocol:
  assumes "flow ''protocol'' = None"
  shows "extract_features flow = extract_features (flow(''protocol'' \<mapsto> PyStr ''TCP'')) \<and>
         (\<forall>f. extract_features flow = Inr f \<longrightarrow>
              f ''protocol'' = Some (PyStr ''TCP'') \<and> f ''protocol_num'' = Some (PyInt 6)) \<and>
         (\<forall>s f. s \<noteq> ''TCP'' \<and> s \<noteq> ''UDP'' \<and> s \<noteq> ''ICMP'' \<longrightarrow>
              extract_features (flow(''protocol'' \<mapsto> PyStr s)) = Inr f \<longrightarrow>
              f ''protocol'' = Some (PyStr s) \<and> f ''protocol_num'' = Some (PyInt 0))"
proof -
  have a: "extract_features flow = extract_features (flow(''protocol'' \<mapsto> PyStr ''TCP''))"
    using assms by (simp add: extract_features_def dict_get_def)
  have b: "f ''protocol'' = Some (PyStr ''TCP'') \<and> f ''protocol_num'' = Some (PyInt 6)"
    if "extract_features flow = Inr f" for f
  proof -
    have p: "dict_get flow ''protocol'' (PyStr ''TCP'') = PyStr ''TCP''"
      using assms by (simp add: dict_get_def)
    from extract_features_result [OF that] show ?thesis
      unfolding p by (auto simp: protocol_map_def dict_get_def)
  qed
  have c: "f ''protocol'' = Some (PyStr s) \<and> f ''protocol_num'' = Some (PyInt 0)"
    if s: "s \<noteq> ''TCP'' \<and> s \<noteq> ''UDP'' \<and> s \<noteq> ''ICMP''"
       and r: "extract_features (flow(''protocol'' \<mapsto> PyStr s)) = Inr f" for s f
  proof -
    have p: "dict_get (flow(''protocol'' \<mapsto> PyStr s)) ''protocol'' (PyStr ''TCP'') = PyStr s"
      by (simp add: dict_get_def)
    have l: "protocol_lookup (PyStr s) = Inr (PyInt 0)"
      using s by (simp add: protocol_map_def dict_get_def)
    from extract_features_result [OF r] show ?thesis
      unfolding p l by auto
  qed
  from a b c show ?thesis by blast
qed

theorem extract_features_absent_protocol_witness:
  "Map.empty ''protocol'' = (None :: pyval option) \<and>
   (\<exists>f. extract_features Map.empty = Inr f \<and>
        f ''protocol'' = Some (PyStr ''TCP'') \<and> f ''protocol_num'' = Some (PyInt 6)) \<and>
   (\<exists>f. extract_features [''protocol'' \<mapsto> PyStr ''GRE''] = Inr f \<and>
        f ''protocol_num'' = Some (PyInt 0))"
proof -
  have h: "(Map.empty :: flow) ''protocol'' = None" by simp
  have z: "float64 0 = Fin 0" by (simp add: float_eval)
  have n: "as_number (dict_get (Map.empty :: flow) ''packet_count'' (PyInt 0)) = Some (Fin 0)"
          "as_number (dict_get (Map.empty :: flow) ''byte_count'' (PyInt 0)) = Some (Fin 0)"
          "as_number (dict_get (Map.empty :: flow) ''duration_seconds'' (PyInt 0)) = Some (Fin 0)"
          "dict_get (Map.empty :: flow) ''protocol'' (PyStr ''TCP'') = PyStr ''TCP''"
    by (simp_all add: dict_get_def)
  have g: "as_number (dict_get [''protocol'' \<mapsto> PyStr ''GRE''] ''packet_count'' (PyInt 0)) = Some (Fin 0)"
          "as_number (dict_get [''protocol'' \<mapsto> PyStr ''GRE''] ''byte_count'' (PyInt 0)) = Some (Fin 0)"
          "as_number (dict_get [''protocol'' \<mapsto> PyStr ''GRE''] ''duration_seconds'' (PyInt 0)) = Some (Fin 0)"
          "dict_get [''protocol'' \<mapsto> PyStr ''GRE''] ''protocol'' (PyStr ''TCP'') = PyStr ''GRE''"
    by (simp_all add: dict_get_def)
  note th = extract_features_absent_protocol [OF h]
  from extract_features_numeric [OF n(1) z n(2) z n(3) z n(4)]
  obtain f1 where f1: "extract_features Map.empty = Inr f1"
    by (elim exE conjE)
  from extract_features_numeric [OF g(1) z g(2) z g(3) z g(4)] obtain f2
    where f2: "extract_features [''protocol'' \<mapsto> PyStr ''GRE''] = Inr f2"
    by (elim exE conjE)
  have a: "f1 ''protocol'' = Some (PyStr ''TCP'') \<and> f1 ''protocol_num'' = Some (PyInt 6)"
    by (rule th [THEN conjunct2, THEN conjunct1, rule_format, OF f1])
  have ne: "''GRE'' \<noteq> ''TCP'' \<and> ''GRE'' \<noteq> ''UDP'' \<and> ''GRE'' \<noteq> ''ICMP''" by simp
  have b: "f2 ''protocol_num'' = Some (PyInt 0)"
    by (rule th [THEN conjunct2, THEN conjunct2, rule_format, OF ne f2, THEN conjunct2])
  have c1: "\<exists>f. extract_features Map.empty = Inr f \<and>
        f ''protocol'' = Some (PyStr ''TCP'') \<and> f ''protocol_num'' = Some (PyInt 6)"
    using f1 a by (intro exI [of _ f1] conjI) simp_all
  have c2: "\<exists>f. extract_features [''protocol'' \<mapsto> PyStr ''GRE''] = Inr f \<and>
        f ''protocol_num'' = Some (PyInt 0)"
    using f2 b by (intro exI [of _ f2] conjI) simp_all
  from h c1 c2 show ?thesis by (intro conjI)
qed

text \<open>
  C8, as the code has it. For a flow whose packet count, byte count and duration are
  numbers that a float holds exactly (floats, and the integers that fit one; given, or
  absent and so 0) and whose protocol is a string (given, or absent and so \<open>TCP\<close>),
  \<open>extract_features\<close> returns a feature map with
  \<open>packets_per_second = packet_count / duration\<close> and
  \<open>bytes_per_second = byte_count / duration\<close> when the duration is positive, both 0
  otherwise; \<open>avg_packet_size = byte_count / packet_count\<close> when the packet count is
  positive, 0 otherwise, each quotient being the float nearest to it; and \<open>protocol_num\<close>
  6 for \<open>TCP\<close>, 17 for \<open>UDP\<close>, 1 for \<open>ICMP\<close>, 0 for any other string. Whatever the flow
  holds, the function never raises ZeroDivisionError: both divisions are guarded.
\<close>

theorem extract_features_derived:
  assumes "as_number (dict_get flow ''packet_count'' (PyInt 0)) = Some (Fin pc)"
      and "float64 pc = Fin pc"
      and "as_number (dict_get flow ''byte_count'' (PyInt 0)) = Some (Fin bc)"
      and "float64 bc = Fin bc"
      and "as_number (dict_get flow ''duration_seconds'' (PyInt 0)) = Some (Fin dur)"
      and "float64 dur = Fin dur"
      and "dict_get flow ''protocol'' (PyStr ''TCP'') = PyStr proto"
  shows "(\<exists>f. extract_features flow = Inr f \<and>
           f ''packets_per_second'' =
             Some (if 0 < dur then PyFloat (float64 (pc / dur)) else PyInt 0) \<and>
           f ''bytes_per_second'' =
             Some (if 0 < dur then PyFloat (float64 (bc / dur)) else PyInt 0) \<and>
           f ''avg_packet_size'' =
             Some (if 0 < pc then PyFloat (float64 (bc / pc)) else PyInt 0) \<and>
           f ''protocol_num'' =
             Some (PyInt (if proto = ''TCP'' then 6 else if proto = ''UDP'' then 17
                          else if proto = ''ICMP'' then 1 else 0))) \<and>
         extract_features any_flow \<noteq> Inl ZeroDivisionError"
proof -
  have "extract_features any_flow \<noteq> Inl ZeroDivisionError"
    using extract_features_error [of any_flow ZeroDivisionError] by auto
  with extract_features_numeric [OF assms] show ?thesis by (intro conjI)
qed

theorem extract_features_derived_witness:
  "(\<exists>f. extract_features tcp_flow = Inr f \<and>
        f ''packets_per_second'' = Some (PyFloat (Fin 10)) \<and>
        f ''bytes_per_second'' = Some (PyFloat (Fin 5000)) \<and>
        f ''avg_packet_size'' = Some (PyFloat (Fin 500)) \<and>
        f ''protocol_num'' = Some (PyInt 6)) \<and>
   (\<exists>f. extract_features instant_flow = Inr f \<and>
        f ''packets_per_second'' = Some (PyInt 0) \<and>
        f ''bytes_per_second'' = Some (PyInt 0) \<and>
        f ''avg_packet_size'' = Some (PyFloat (Fin 60)) \<and>
        f ''protocol_num'' = Some (PyInt 0))"
proof -
  have t: "as_number (dict_get tcp_flow ''packet_count'' (PyInt 0)) = Some (Fin 100)"
          "float64 100 = Fin 100"
          "as_number (dict_get tcp_flow ''byte_count'' (PyInt 0)) = Some (Fin 50000)"
          "float64 50000 = Fin 50000"
          "as_number (dict_get tcp_flow ''duration_seconds'' (PyInt 0)) = Some (Fin 10)"
          "float64 10 = Fin 10"
          "dict_get tcp_flow ''protocol'' (PyStr ''TCP'') = PyStr ''TCP''"
    by (simp_all add: tcp_flow_def dict_get_def float_eval)
  have i: "as_number (dict_get instant_flow ''packet_count'' (PyInt 0)) = Some (Fin 4)"
          "float64 4 = Fin 4"
          "as_number (dict_get instant_flow ''byte_count'' (PyInt 0)) = Some (Fin 240)"
          "float64 240 = Fin 240"
          "as_number (dict_get instant_flow ''duration_seconds'' (PyInt 0)) = Some (Fin 0)"
          "float64 0 = Fin 0"
          "dict_get instant_flow ''protocol'' (PyStr ''TCP'') = PyStr ''GRE''"
    by (simp_all add: instant_flow_def dict_get_def float_eval)
  have a: "\<exists>f. extract_features tcp_flow = Inr f \<and>
        f ''packets_per_second'' = Some (PyFloat (Fin 10)) \<and>
        f ''bytes_per_second'' = Some (PyFloat (Fin 5000)) \<and>
        f ''avg_packet_size'' = Some (PyFloat (Fin 500)) \<and>
        f ''protocol_num'' = Some (PyInt 6)"
    using extract_features_derived [OF t, of Map.empty] by (simp add: float_eval)
  have b: "\<exists>f. extract_features instant_flow = Inr f \<and>
        f ''packets_per_second'' = Some (PyInt 0) \<and>
        f ''bytes_per_second'' = Some (PyInt 0) \<and>
        f ''avg_packet_size'' = Some (PyFloat (Fin 60)) \<and>
        f ''protocol_num'' = Some (PyInt 0)"
    using extract_features_derived [OF i, of Map.empty] by (simp add: float_eval)
  from a b show ?thesis by (rule conjI)
qed

text \<open>
  C8 as it is written fails: the guards keep a zero divisor away, but a packet count that
  is an integer too large for a float makes the division raise OverflowError.
\<close>

theorem extract_features_overflow_counterexample:
  "extract_features [''packet_count'' \<mapsto> PyInt (10 ^ 400), ''duration_seconds'' \<mapsto> PyInt 1] =
     Inl OverflowError"
  by (simp add: extract_features_def dict_get_def py_truediv_def int_truediv_def float_eval)

section \<open>Properties of \<open>predict_batch\<close>\<close>

text \<open>The loop appends one entry per flow, in order, to what it was given; it fails
  exactly when the body fails for one of the flows.\<close>

lemma batch_loop_entries:
  "batch_loop env m flows acc = Inr ps \<Longrightarrow>
   \<exists>es. ps = acc @ es \<and> map Inr es = map (batch_entry env m) flows"
proof (induction flows arbitrary: acc)
  case Nil
  then show ?case by simp
next
  case (Cons flow flows)
  from Cons.prems obtain entry where e: "batch_entry env m flow = Inr entry"
    and r: "batch_loop env m flows (acc @ [entry]) = Inr ps"
    by (auto split: sum.splits)
  from Cons.IH [OF r] obtain es where es: "ps = (acc @ [entry]) @ es"
    "map Inr es = map (batch_entry env m) flows"
    by blast
  have "ps = acc @ (entry # es)" using es(1) by simp
  moreover have "map Inr (entry # es) = map (batch_entry env m) (flow # flows)"
    using es(2) e by simp
  ultimately show ?case by blast
qed

lemma batch_loop_succeeds:
  "list_all (\<lambda>flow. \<exists>entry. batch_entry env m flow = Inr entry) flows \<Longrightarrow>
   \<exists>ps. batch_loop env m flows acc = Inr ps"
  by (induction flows arbitrary: acc) auto

lemma batch_loop_fails:
  "\<not> list_all (\<lambda>flow. \<exists>entry. batch_entry env m flow = Inr entry) flows \<Longrightarrow>
   \<exists>e. batch_loop env m flows acc = Inl e"
proof (induction flows arbitrary: acc)
  case Nil
  then show ?case by simp
next
  case (Cons flow flows)
  show ?case
  proof (cases "batch_entry env m flow")
    case (Inl e)
    then show ?thesis by simp
  next
    case (Inr entry)
    with Cons.prems
    have "\<not> list_all (\<lambda>flow. \<exists>entry. batch_entry env m flow = Inr entry) flows"
      by simp
    from Cons.IH [OF this, of "acc @ [entry]"] Inr show ?thesis by simp
  qed
qed

lemma count_ones: "sum_list (map (\<lambda>p. Suc 0) xs) = length xs"
  by (induction xs) auto

text \<open>
  C9, as the code has it. A batch of \<open>N\<close> flow records each of which can be processed on
  its own is answered (status 200) with exactly \<open>N\<close> records, the \<open>i\<close>-th being the one
  computed from the \<open>i\<close>-th flow, so in the order of the inputs; \<open>total_flows\<close> is \<open>N\<close> and
  \<open>malicious_count\<close> is the number of returned records whose \<open>is_malicious\<close> is true. A
  batch with a flow whose processing raises is answered with status 500 and no record.
\<close>

theorem predict_batch_one_record_per_flow:
  "((\<forall>flow \<in> set flows. \<exists>entry. batch_entry env m flow = Inr entry) \<longrightarrow>
      (\<exists>r. predict_batch env m (Some flows) = Ok200 r)) \<and>
   (\<not> (\<forall>flow \<in> set flows. \<exists>entry. batch_entry env m flow = Inr entry) \<longrightarrow>
      (\<exists>e. predict_batch env m (Some flows) = ServerError500 e)) \<and>
   (\<forall>r. predict_batch env m (Some flows) = Ok200 r \<longrightarrow>
      length (predictions r) = length flows \<and>
      total_flows r = length flows \<and>
      map Inr (predictions r) = map (batch_entry env m) flows \<and>
      malicious_count r = length (filter is_malicious (predictions r)))"
proof (intro conjI impI allI)
  assume "\<forall>flow \<in> set flows. \<exists>entry. batch_entry env m flow = Inr entry"
  then have "list_all (\<lambda>flow. \<exists>entry. batch_entry env m flow = Inr entry) flows"
    by (simp add: list_all_iff)
  from batch_loop_succeeds [OF this, of "[]"] obtain ps
    where "batch_loop env m flows [] = Inr ps" by blast
  then show "\<exists>r. predict_batch env m (Some flows) = Ok200 r"
    by (simp add: predict_batch_def)
next
  assume "\<not> (\<forall>flow \<in> set flows. \<exists>entry. batch_entry env m flow = Inr entry)"
  then have "\<not> list_all (\<lambda>flow. \<exists>entry. batch_entry env m flow = Inr entry) flows"
    by (simp add: list_all_iff)
  from batch_loop_fails [OF this, of "[]"] obtain e
    where "batch_loop env m flows [] = Inl e" by blast
  then show "\<exists>e. predict_batch env m (Some flows) = ServerError500 e"
    by (simp add: predict_batch_def)
next
  fix r assume ok: "predict_batch env m (Some flows) = Ok200 r"
  then obtain ps where ps: "batch_loop env m flows [] = Inr ps"
    and r: "r = \<lparr>predictions = ps, total_flows = length ps,
                 malicious_count = sum_list (map (\<lambda>p. 1) (filter is_malicious ps))\<rparr>"
    by (auto simp: predict_batch_def split: sum.splits)
  from batch_loop_entries [OF ps] have m: "map Inr ps = map (batch_entry env m) flows"
    by simp
  then have l: "length ps = length flows"
    using length_map by metis
  show "length (predictions r) = length flows" using r l by simp
  show "total_flows r = length flows" using r l by simp
  show "map Inr (predictions r) = map (batch_entry env m) flows" using r m by simp
  show "malicious_count r = length (filter is_malicious (predictions r))"
    using r by (simp add: count_ones)
qed

lemmas flow_eval =
  batch_entry_def extract_features_def py_truediv_def int_truediv_def protocol_map_def
  threat_eval plain_env_def rate_model_def busy_row_def Let_def

lemma tcp_entry:
  "batch_entry plain_env rate_model tcp_flow =
     Inr \<lparr>prediction = ''malicious'', confidence = Fin (9/10), is_malicious = True,
          attack_type = ''anomaly'', flow_id = PyStr ''unknown''\<rparr>"
  by (simp add: flow_eval tcp_flow_def)

lemma instant_entry:
  "batch_entry plain_env rate_model instant_flow =
     Inr \<lparr>prediction = ''benign'', confidence = Fin (4/5), is_malicious = False,
          attack_type = ''benign'', flow_id = PyStr ''f2''\<rparr>"
  by (simp add: flow_eval instant_flow_def)

lemma text_entry:
  "batch_entry plain_env rate_model [''duration_seconds'' \<mapsto> PyStr ''ten''] = Inl TypeError"
  by (simp add: flow_eval)

theorem predict_batch_one_record_per_flow_witness:
  "predict_batch plain_env rate_model (Some [tcp_flow, instant_flow]) =
     Ok200 \<lparr>predictions =
              [\<lparr>prediction = ''malicious'', confidence = Fin (9/10), is_malicious = True,
                 attack_type = ''anomaly'', flow_id = PyStr ''unknown''\<rparr>,
               \<lparr>prediction = ''benign'', confidence = Fin (4/5), is_malicious = False,
                 attack_type = ''benign'', flow_id = PyStr ''f2''\<rparr>],
            total_flows = 2, malicious_count = 1\<rparr>"
proof -
  note th = predict_batch_one_record_per_flow [of "[tcp_flow, instant_flow]" plain_env rate_model]
  have a: "\<forall>flow \<in> set [tcp_flow, instant_flow]. \<exists>entry. batch_entry plain_env rate_model flow = Inr entry"
    by (simp add: tcp_entry instant_entry)
  from th [THEN conjunct1, THEN mp, OF a]
  obtain r where r: "predict_batch plain_env rate_model (Some [tcp_flow, instant_flow]) = Ok200 r"
    by (elim exE)
  note props = th [THEN conjunct2, THEN conjunct2, THEN spec, THEN mp, OF r]
  from props have p: "map Inr (predictions r) = map (batch_entry plain_env rate_model) [tcp_flow, instant_flow]"
    and t: "total_flows r = length [tcp_flow, instant_flow]"
    and c: "malicious_count r = length (filter is_malicious (predictions r))"
    by simp_all
  from p have p': "predictions r =
              [\<lparr>prediction = ''malicious'', confidence = Fin (9/10), is_malicious = True,
                 attack_type = ''anomaly'', flow_id = PyStr ''unknown''\<rparr>,
               \<lparr>prediction = ''benign'', confidence = Fin (4/5), is_malicious = False,
                 attack_type = ''benign'', flow_id = PyStr ''f2''\<rparr>]"
    by (simp add: tcp_entry instant_entry map_eq_Cons_conv)
  from c p' have c': "malicious_count r = 1" by simp
  from t have t': "total_flows r = 2" by simp
  from p' t' c' have "r = \<lparr>predictions =
              [\<lparr>prediction = ''malicious'', confidence = Fin (9/10), is_malicious = True,
                 attack_type = ''anomaly'', flow_id = PyStr ''unknown''\<rparr>,
               \<lparr>prediction = ''benign'', confidence = Fin (4/5), is_malicious = False,
                 attack_type = ''benign'', flow_id = PyStr ''f2''\<rparr>],
            total_flows = 2, malicious_count = 1\<rparr>"
    by (cases r) simp
  with r show ?thesis by simp
qed

text \<open>
  C9 as it is written fails: a batch of two flow records, the second with a duration that
  is a string, is answered with status 500 and holds no decision record.
\<close>

theorem predict_batch_error_counterexample:
  "predict_batch plain_env rate_model (Some [tcp_flow, [''duration_seconds'' \<mapsto> PyStr ''ten'']]) =
     ServerError500 TypeError"
  by (simp add: predict_batch_def tcp_entry text_entry)

end
